theory Spec2Isabelle
  imports Complex_Main
begin

section \<open>The font atlas generator: layout planning\<close>

text \<open>
  A shallow embedding of \<^verbatim>\<open>Metal/generate_font_atlas.py\<close>. Python integers are
  unbounded, so they are \<^typ>\<open>int\<close>; \<^verbatim>\<open>//\<close> is floor division, which is \<open>div\<close> on
  \<^typ>\<open>int\<close>.
\<close>

subsection \<open>Arguments of \<^verbatim>\<open>generate_font_atlas\<close>\<close>

record args =
  font_path :: string
  output_path :: string
  cell_width :: int
  cell_height :: int
  font_size :: "int option"
  first_char :: int
  last_char :: int
  include_box_drawing :: bool
  padding :: int

text \<open>\<^verbatim>\<open>actual_font_size = font_size if font_size is not None else cell_height\<close>\<close>

definition actual_font_size :: "args \<Rightarrow> int" where
  "actual_font_size a = (case font_size a of Some s \<Rightarrow> s | None \<Rightarrow> cell_height a)"

subsection \<open>The character list\<close>

text \<open>Python's \<^verbatim>\<open>range(lo, hi)\<close>: the integers from \<open>lo\<close> up to \<open>hi - 1\<close>.\<close>

definition range_py :: "int \<Rightarrow> int \<Rightarrow> int list" where
  "range_py lo hi = [lo..hi - 1]"

text \<open>
  The two \<^verbatim>\<open>for\<close> loops that append to \<^verbatim>\<open>char_list\<close>: each is a left fold of
  \<^verbatim>\<open>append\<close> over its range.
\<close>

definition append_all :: "int list \<Rightarrow> int list \<Rightarrow> int list" where
  "append_all acc xs = foldl (\<lambda>l i. l @ [i]) acc xs"

definition char_list :: "args \<Rightarrow> int list" where
  "char_list a =
     (let l1 = append_all [] (range_py (first_char a) (last_char a + 1))
      in if include_box_drawing a then append_all l1 (range_py 0x2500 0x2580) else l1)"

definition char_count :: "args \<Rightarrow> int" where
  "char_count a = int (length (char_list a))"

subsection \<open>Grid geometry\<close>

definition glyphs_per_row :: int where
  "glyphs_per_row = 16"

definition rows :: "args \<Rightarrow> int" where
  "rows a = (char_count a + glyphs_per_row - 1) div glyphs_per_row"

definition padded_cell_width :: "args \<Rightarrow> int" where
  "padded_cell_width a = cell_width a + (padding a * 2)"

definition padded_cell_height :: "args \<Rightarrow> int" where
  "padded_cell_height a = cell_height a + (padding a * 2)"

subsection \<open>Rounding up to a power of two\<close>

text \<open>
  \<^verbatim>\<open>power = 1; while power < n: power *= 2; return power\<close>. The loop is a partial
  function: \<open>None\<close> stands for a loop that never ends.
\<close>

partial_function (option) double_while :: "int \<Rightarrow> int \<Rightarrow> int option" where
  "double_while pw n = (if pw < n then double_while (pw * 2) n else Some pw)"

declare double_while.simps [code]

definition next_power_of_2 :: "int \<Rightarrow> int option" where
  "next_power_of_2 n = double_while 1 n"

definition atlas_width :: "args \<Rightarrow> int option" where
  "atlas_width a = next_power_of_2 (glyphs_per_row * padded_cell_width a)"

definition atlas_height :: "args \<Rightarrow> int option" where
  "atlas_height a = next_power_of_2 (rows a * padded_cell_height a)"

section \<open>The platform: Python built-ins, the operating system and the imaging library\<close>

text \<open>
  Exceptions are values. The ones the script can meet: \<^verbatim>\<open>ValueError\<close> (from
  \<^verbatim>\<open>int\<close>, \<^verbatim>\<open>chr\<close> and the drawing calls), \<^verbatim>\<open>OverflowError\<close> (an integer that does
  not fit the C \<^verbatim>\<open>int\<close> a library call takes), \<^verbatim>\<open>MemoryError\<close> (an image too large
  to allocate), \<^verbatim>\<open>UnicodeEncodeError\<close> (a \<^verbatim>\<open>print\<close> of text that the standard output
  cannot encode), \<^verbatim>\<open>OSError\<close> (files), \<^verbatim>\<open>IndexError\<close>, and whatever the font library
  raises, carried as \<open>LibraryError\<close> with its text.
\<close>

datatype exn =
    ValueError | OverflowError | MemoryError | UnicodeEncodeError
  | OSError | IndexError | LibraryError string

subsection \<open>Images of mode \<^verbatim>\<open>L\<close>\<close>

text \<open>
  A single-channel image: its size and the value of every pixel. Only pixels inside
  the size are ever written.
\<close>

record image =
  im_width :: int
  im_height :: int
  px :: "int \<times> int \<Rightarrow> nat"

definition filled_image :: "int \<times> int \<Rightarrow> nat \<Rightarrow> image" where
  "filled_image sz color = \<lparr>im_width = fst sz, im_height = snd sz, px = (\<lambda>_. color)\<rparr>"

definition inside :: "image \<Rightarrow> int \<times> int \<Rightarrow> bool" where
  "inside im p = (0 \<le> fst p \<and> fst p < im_width im \<and> 0 \<le> snd p \<and> snd p < im_height im)"

text \<open>
  \<^verbatim>\<open>ImageDraw.rectangle([x0, y0, x1, y1], fill)\<close>: both corners are inclusive, the
  drawing is clipped to the image, and the library raises \<^verbatim>\<open>ValueError\<close> when
  \<open>x1 < x0\<close> or \<open>y1 < y0\<close>.
\<close>

definition ImageDraw_rectangle :: "image \<Rightarrow> int \<times> int \<times> int \<times> int \<Rightarrow> nat \<Rightarrow> exn + image" where
  "ImageDraw_rectangle im box fill =
     (case box of (x0, y0, x1, y1) \<Rightarrow>
        if x1 < x0 \<or> y1 < y0 then Inl ValueError
        else Inr (im\<lparr>px := (\<lambda>p. if inside im p \<and> x0 \<le> fst p \<and> fst p \<le> x1
                                       \<and> y0 \<le> snd p \<and> snd p \<le> y1
                                   then fill else px im p)\<rparr>))"

subsection \<open>Fonts\<close>

text \<open>
  A loaded font, as the script uses it: \<^verbatim>\<open>getmetrics()\<close> gives (ascent, descent);
  \<^verbatim>\<open>getbbox(char)\<close> gives (left, top, right, bottom) or raises; rasterizing a
  character gives its coverage mask or raises. The mask maps a pixel offset from the
  drawing origin to a coverage value; offsets outside the mask are \<open>None\<close>.
\<close>

record font =
  getmetrics :: "int \<times> int"
  getbbox :: "int \<Rightarrow> exn + (int \<times> int \<times> int \<times> int)"
  getmask :: "int \<Rightarrow> exn + (int \<times> int \<Rightarrow> nat option)"

subsection \<open>What the script prints\<close>

text \<open>Every \<^verbatim>\<open>print\<close> of the script is one message, with the values it formats.\<close>

datatype message =
    LoadingFont string
  | CellSize int int
  | FontSizePt int
  | ErrorLoadingFont exn
  | FontMetrics int int int
  | IncludingBoxDrawing int
  | AtlasSize int int
  | Rendering int
  | Warning int exn
  | SavingAtlas string
  | MetadataSaved string
  | Done
  | FontNotFound string
  | Usage string

subsection \<open>Everything else the script calls\<close>

record platform =
  script_dir :: string
  path_exists :: "string \<Rightarrow> bool"
  int_of_str :: "string \<Rightarrow> int option"
  truetype :: "string \<Rightarrow> int \<Rightarrow> exn + font"
  can_allocate :: "int \<times> int \<Rightarrow> bool"
  composite :: "nat \<Rightarrow> nat \<Rightarrow> nat \<Rightarrow> nat"
  encode :: "string \<Rightarrow> image \<Rightarrow> exn + string"
  writable :: "string \<Rightarrow> bool"
  stdout_accepts :: "message \<Rightarrow> bool"

text \<open>
  \<open>script_dir\<close> is \<^verbatim>\<open>os.path.dirname(os.path.abspath(__file__))\<close>; \<open>path_exists\<close> is
  \<^verbatim>\<open>os.path.exists\<close>; \<open>int_of_str\<close> is \<^verbatim>\<open>int\<close> on a string (\<open>None\<close>: \<^verbatim>\<open>ValueError\<close>);
  \<open>truetype\<close> is \<^verbatim>\<open>ImageFont.truetype\<close>; \<open>can_allocate\<close> tells whether there is
  memory for an image of a size; \<open>composite old ink coverage\<close> is the value a pixel
  takes when ink is pasted on it through a mask; \<open>encode path im\<close> is the encoder
  \<^verbatim>\<open>Image.save\<close> picks from the path's extension (it raises on one it does not know);
  \<open>writable\<close> tells whether a path can be opened for writing; \<open>stdout_accepts\<close> tells
  whether the standard output can encode the text of a message.
\<close>

text \<open>
  \<^verbatim>\<open>Image.new("L", size, color)\<close>: a negative size is refused with \<^verbatim>\<open>ValueError\<close>, a
  width or height of \<open>2 ^ 31\<close> or more does not fit a C \<^verbatim>\<open>int\<close> and raises
  \<^verbatim>\<open>OverflowError\<close>, and an image that cannot be allocated raises \<^verbatim>\<open>MemoryError\<close>.
\<close>

definition Image_new :: "platform \<Rightarrow> int \<times> int \<Rightarrow> nat \<Rightarrow> exn + image" where
  "Image_new P sz color =
     (if fst sz < 0 \<or> snd sz < 0 then Inl ValueError
      else if 2 ^ 31 \<le> fst sz \<or> 2 ^ 31 \<le> snd sz then Inl OverflowError
      else if \<not> can_allocate P sz then Inl MemoryError
      else Inr (filled_image sz color))"

text \<open>
  \<^verbatim>\<open>ImageDraw.text(xy, char, font, fill)\<close>: the character is rasterized to a mask,
  and the ink is pasted through the mask placed at \<open>xy\<close>, clipped to the image. A
  failure of the rasterizer leaves the image as it was.
\<close>

definition ImageDraw_text ::
  "platform \<Rightarrow> image \<Rightarrow> int \<times> int \<Rightarrow> int \<Rightarrow> font \<Rightarrow> nat \<Rightarrow> exn + image" where
  "ImageDraw_text P im xy c fnt fill =
     (case getmask fnt c of
        Inl e \<Rightarrow> Inl e
      | Inr cover \<Rightarrow>
          Inr (im\<lparr>px := (\<lambda>p. if inside im p
                             then (case cover (fst p - fst xy, snd p - snd xy) of
                                     None \<Rightarrow> px im p
                                   | Some cov \<Rightarrow> composite P (px im p) fill cov)
                             else px im p)\<rparr>))"

subsection \<open>The world the script changes\<close>

text \<open>The files on disk and what has been printed so far.\<close>

record world =
  files :: "string \<rightharpoonup> string"
  stdout :: "message list"

text \<open>
  \<^verbatim>\<open>print\<close>: the message is added to the output, or \<^verbatim>\<open>UnicodeEncodeError\<close> is raised
  and nothing is added. \<open>prints\<close> is a run of \<^verbatim>\<open>print\<close> calls with nothing fallible in
  between; it stops at the first that raises.
\<close>

definition print :: "platform \<Rightarrow> world \<Rightarrow> message \<Rightarrow> exn + world" where
  "print P w m =
     (if stdout_accepts P m then Inr (w\<lparr>stdout := stdout w @ [m]\<rparr>) else Inl UnicodeEncodeError)"

fun prints :: "platform \<Rightarrow> world \<Rightarrow> message list \<Rightarrow> exn option \<times> world" where
  "prints P w [] = (None, w)"
| "prints P w (m # ms) =
     (case print P w m of Inl e \<Rightarrow> (Some e, w) | Inr w' \<Rightarrow> prints P w' ms)"

text \<open>Writing a whole file: \<^verbatim>\<open>OSError\<close> when the path cannot be opened.\<close>

definition write_file :: "platform \<Rightarrow> world \<Rightarrow> string \<Rightarrow> string \<Rightarrow> exn + world" where
  "write_file P w path content =
     (if writable P path then Inr (w\<lparr>files := (files w)(path \<mapsto> content)\<rparr>) else Inl OSError)"

subsection \<open>Strings\<close>

text \<open>\<^verbatim>\<open>str(n)\<close> for an integer, as an f-string formats it.\<close>

fun str_nat :: "nat \<Rightarrow> string" where
  "str_nat n = (if n < 10 then [char_of (48 + n)]
                else str_nat (n div 10) @ [char_of (48 + n mod 10)])"

declare str_nat.simps [simp del]

definition str_int :: "int \<Rightarrow> string" where
  "str_int i = (if i < 0 then CHR ''-'' # str_nat (nat (- i)) else str_nat (nat i))"

text \<open>
  \<^verbatim>\<open>s.replace(old, new)\<close> for a non-empty \<open>old\<close>: every occurrence, leftmost first and
  not overlapping, is replaced.
\<close>

fun replace :: "string \<Rightarrow> string \<Rightarrow> string \<Rightarrow> string" where
  "replace [] old new = []"
| "replace (c # cs) old new =
     (if old \<noteq> [] \<and> take (length old) (c # cs) = old
      then new @ replace (drop (length old) (c # cs)) old new
      else c # replace cs old new)"

text \<open>\<^verbatim>\<open>os.path.basename\<close> and \<^verbatim>\<open>os.path.join\<close> of two parts, on a POSIX system.\<close>

definition basename :: "string \<Rightarrow> string" where
  "basename p = rev (takeWhile (\<lambda>c. c \<noteq> CHR ''/'') (rev p))"

definition path_join :: "string \<Rightarrow> string \<Rightarrow> string" where
  "path_join d f =
     (if f \<noteq> [] \<and> hd f = CHR ''/'' then f
      else if d = [] \<or> last d = CHR ''/'' then d @ f
      else d @ ''/'' @ f)"

section \<open>Rendering\<close>

text \<open>
  \<^verbatim>\<open>chr(char_code)\<close> raises \<^verbatim>\<open>ValueError\<close> outside \<open>0 \<dots> 0x10FFFF\<close>, and
  \<^verbatim>\<open>OverflowError\<close> for an integer that does not fit a C \<^verbatim>\<open>int\<close>; in the script it
  stands before the \<^verbatim>\<open>try\<close>, so nothing catches it.
\<close>

definition chr_ok :: "int \<Rightarrow> bool" where
  "chr_ok c = (0 \<le> c \<and> c < 0x110000)"

definition chr_error :: "int \<Rightarrow> exn" where
  "chr_error c = (if c < - (2 ^ 31) \<or> 2 ^ 31 \<le> c then OverflowError else ValueError)"

text \<open>
  The body of the \<^verbatim>\<open>try\<close>, for the character \<open>char_code\<close> whose inner cell starts at
  \<open>(cell_x, cell_y)\<close>. \<^verbatim>\<open>char == "_"\<close> is \<open>char_code = 95\<close>.
\<close>

definition draw_char ::
  "platform \<Rightarrow> args \<Rightarrow> font \<Rightarrow> image \<Rightarrow> int \<Rightarrow> int \<Rightarrow> int \<Rightarrow> exn + image" where
  "draw_char P a fnt atlas char_code cell_x cell_y =
     (let (ascent, descent) = getmetrics fnt in
      if char_code = 95 then
        let underscore_height = 2;
            total_font_height = ascent + descent;
            vertical_padding = (cell_height a - total_font_height) div 2;
            underscore_y = cell_y + vertical_padding + ascent + 1 - 2
        in ImageDraw_rectangle atlas
             (cell_x, underscore_y, cell_x + cell_width a - 1, underscore_y + underscore_height - 1)
             255
      else
        case getbbox fnt char_code of
          Inl e \<Rightarrow> Inl e
        | Inr bbox \<Rightarrow>
            (case bbox of (bbox0, bbox1, bbox2, bbox3) \<Rightarrow>
               let char_width = bbox2 - bbox0;
                   offset_x = (cell_width a - char_width) div 2;
                   total_font_height = ascent + descent;
                   vertical_padding = (cell_height a - total_font_height) div 2;
                   text_y = cell_y + vertical_padding - 2
               in ImageDraw_text P atlas (cell_x + offset_x, text_y) char_code fnt 255))"

text \<open>
  One turn of \<^verbatim>\<open>for i in range(char_count)\<close>. An exception of the \<^verbatim>\<open>try\<close> body is
  caught: a warning is printed and the atlas is left as it was. The warning shows
  the character itself; if its \<^verbatim>\<open>print\<close> raises, nothing catches that.
\<close>

definition render_char ::
  "platform \<Rightarrow> args \<Rightarrow> font \<Rightarrow> nat \<Rightarrow> image \<times> world \<Rightarrow> (exn + image) \<times> world" where
  "render_char P a fnt i st =
     (case st of (atlas, w) \<Rightarrow>
        let char_code = char_list a ! i in
        if \<not> chr_ok char_code then (Inl (chr_error char_code), w)
        else
          let row = int i div glyphs_per_row;
              col = int i mod glyphs_per_row;
              padded_cell_x = col * padded_cell_width a;
              padded_cell_y = row * padded_cell_height a;
              cell_x = padded_cell_x + padding a;
              cell_y = padded_cell_y + padding a
          in case draw_char P a fnt atlas char_code cell_x cell_y of
               Inl e \<Rightarrow>
                 (case print P w (Warning char_code e) of
                    Inl e' \<Rightarrow> (Inl e', w)
                  | Inr w' \<Rightarrow> (Inr atlas, w'))
             | Inr atlas' \<Rightarrow> (Inr atlas', w))"

fun render_loop ::
  "platform \<Rightarrow> args \<Rightarrow> font \<Rightarrow> nat list \<Rightarrow> image \<times> world \<Rightarrow> (exn + image) \<times> world" where
  "render_loop P a fnt [] st = (Inr (fst st), snd st)"
| "render_loop P a fnt (i # is) st =
     (case render_char P a fnt i st of
        (Inl e, w') \<Rightarrow> (Inl e, w')
      | (Inr atlas', w') \<Rightarrow> render_loop P a fnt is (atlas', w'))"

text \<open>
  The atlas image is created black, at the rounded size, and the loop runs over
  \<^verbatim>\<open>range(char_count)\<close>. The creation is not inside a \<^verbatim>\<open>try\<close>.
\<close>

definition render_atlas ::
  "platform \<Rightarrow> args \<Rightarrow> font \<Rightarrow> int \<Rightarrow> int \<Rightarrow> world \<Rightarrow> (exn + image) \<times> world" where
  "render_atlas P a fnt aw ah w =
     (case Image_new P (aw, ah) 0 of
        Inl e \<Rightarrow> (Inl e, w)
      | Inr atlas \<Rightarrow> render_loop P a fnt [0..<length (char_list a)] (atlas, w))"

section \<open>Saving the atlas and its metadata\<close>

definition header_path :: "args \<Rightarrow> string" where
  "header_path a = replace (output_path a) ''.png'' ''_metadata.h''"

definition newline :: string where
  "newline = [CHR 0x0A]"

definition header_text :: "args \<Rightarrow> int \<Rightarrow> int \<Rightarrow> string" where
  "header_text a aw ah = concat (map (\<lambda>l. l @ newline)
     [''// Auto-generated font atlas metadata'',
      ''// Generated from: '' @ basename (font_path a),
      [],
      ''#ifndef FONT_ATLAS_METADATA_H'',
      ''#define FONT_ATLAS_METADATA_H'',
      [],
      ''#define FONT_ATLAS_WIDTH '' @ str_int aw,
      ''#define FONT_ATLAS_HEIGHT '' @ str_int ah,
      ''#define FONT_GLYPH_WIDTH '' @ str_int (cell_width a),
      ''#define FONT_GLYPH_HEIGHT '' @ str_int (cell_height a),
      ''#define FONT_ATLAS_PADDING '' @ str_int (padding a),
      ''#define FONT_PADDED_CELL_WIDTH '' @ str_int (padded_cell_width a),
      ''#define FONT_PADDED_CELL_HEIGHT '' @ str_int (padded_cell_height a),
      ''#define FONT_FIRST_CHAR '' @ str_int (first_char a),
      ''#define FONT_LAST_CHAR '' @ str_int (last_char a),
      ''#define FONT_GLYPHS_PER_ROW '' @ str_int glyphs_per_row,
      ''#define FONT_CHAR_COUNT '' @ str_int (char_count a),
      ''#define FONT_INCLUDES_BOX_DRAWING '' @ str_int (if include_box_drawing a then 1 else 0),
      [],
      ''// Character map: maps Unicode codepoint to atlas index'',
      ''// First '' @ str_int (last_char a - first_char a + 1) @ '' entries are ASCII ''
         @ str_int (first_char a) @ ''-'' @ str_int (last_char a),
      ''// Remaining entries are box drawing U+2500-U+257F'',
      ''// Note: Atlas uses padded cells ('' @ str_int (padded_cell_width a) @ ''x''
         @ str_int (padded_cell_height a) @ '') with '' @ str_int (padding a) @ ''px padding'',
      [],
      ''#endif // FONT_ATLAS_METADATA_H''])"

text \<open>
  \<^verbatim>\<open>atlas.save(output_path)\<close>, then the header. Neither is inside a \<^verbatim>\<open>try\<close>: an
  exception leaves the function.
\<close>

definition save_outputs ::
  "platform \<Rightarrow> args \<Rightarrow> int \<Rightarrow> int \<Rightarrow> image \<Rightarrow> world \<Rightarrow> (exn + bool) \<times> world" where
  "save_outputs P a aw ah atlas w0 =
     (case print P w0 (SavingAtlas (output_path a)) of
        Inl e \<Rightarrow> (Inl e, w0)
      | Inr w1 \<Rightarrow>
          (case encode P (output_path a) atlas of
             Inl e \<Rightarrow> (Inl e, w1)
           | Inr bytes \<Rightarrow>
               (case write_file P w1 (output_path a) bytes of
                  Inl e \<Rightarrow> (Inl e, w1)
                | Inr w2 \<Rightarrow>
                    (case write_file P w2 (header_path a) (header_text a aw ah) of
                       Inl e \<Rightarrow> (Inl e, w2)
                     | Inr w3 \<Rightarrow>
                         (case prints P w3 [MetadataSaved (header_path a), Done] of
                            (Some e, w4) \<Rightarrow> (Inl e, w4)
                          | (None, w4) \<Rightarrow> (Inr True, w4))))))"

section \<open>\<^verbatim>\<open>generate_font_atlas\<close>\<close>

text \<open>
  The result is \<open>None\<close> if a loop never ends; otherwise the value returned
  (\<open>Inr True\<close>, \<open>Inr False\<close>) or the exception that left the function, with the world
  as it is then. Only the loading of the font and the body of the rendering loop
  are inside a \<^verbatim>\<open>try\<close>.
\<close>

definition generate_font_atlas ::
  "platform \<Rightarrow> args \<Rightarrow> world \<Rightarrow> ((exn + bool) \<times> world) option" where
  "generate_font_atlas P a w0 =
     (case prints P w0 [LoadingFont (font_path a),
                        CellSize (cell_width a) (cell_height a),
                        FontSizePt (actual_font_size a)] of
        (Some e, w1) \<Rightarrow> Some (Inl e, w1)
      | (None, w1) \<Rightarrow>
          (case truetype P (font_path a) (actual_font_size a) of
             Inl e \<Rightarrow>
               (case print P w1 (ErrorLoadingFont e) of
                  Inl e' \<Rightarrow> Some (Inl e', w1)
                | Inr w2 \<Rightarrow> Some (Inr False, w2))
           | Inr fnt \<Rightarrow>
               (let (ascent, descent) = getmetrics fnt;
                    baseline = ascent
                in case prints P w1
                          (FontMetrics ascent descent baseline #
                           (if include_box_drawing a
                            then [IncludingBoxDrawing (0x2580 - 0x2500)] else [])) of
                     (Some e, w2) \<Rightarrow> Some (Inl e, w2)
                   | (None, w2) \<Rightarrow>
                       (case atlas_width a of
                          None \<Rightarrow> None
                        | Some aw \<Rightarrow>
                            (case atlas_height a of
                               None \<Rightarrow> None
                             | Some ah \<Rightarrow>
                                 (case prints P w2 [AtlasSize aw ah, Rendering (char_count a)] of
                                    (Some e, w3) \<Rightarrow> Some (Inl e, w3)
                                  | (None, w3) \<Rightarrow>
                                      (case render_atlas P a fnt aw ah w3 of
                                         (Inl e, w4) \<Rightarrow> Some (Inl e, w4)
                                       | (Inr atlas', w4) \<Rightarrow>
                                           Some (save_outputs P a aw ah atlas' w4))))))))"

section \<open>\<^verbatim>\<open>main\<close>\<close>

text \<open>
  The first part of \<^verbatim>\<open>main\<close>: the paths and numbers taken from \<^verbatim>\<open>sys.argv\<close>. The
  call of \<^verbatim>\<open>generate_font_atlas\<close> passes neither \<^verbatim>\<open>first_char\<close> nor \<^verbatim>\<open>last_char\<close>, so
  they are the defaults of its signature, 32 and 126, and it passes
  \<^verbatim>\<open>include_box_drawing=True\<close>.
\<close>

definition argv_int :: "platform \<Rightarrow> string list \<Rightarrow> nat \<Rightarrow> int \<Rightarrow> exn + int" where
  "argv_int P argv k dflt =
     (if length argv > k
      then (case int_of_str P (argv ! k) of None \<Rightarrow> Inl ValueError | Some v \<Rightarrow> Inr v)
      else Inr dflt)"

definition main_args :: "platform \<Rightarrow> string list \<Rightarrow> exn + args" where
  "main_args P argv =
     (let font_path0 = path_join (script_dir P) ''../../Assets/font/petme/PetMe128.ttf'';
          output_path0 = path_join (script_dir P) ''font_atlas.png'';
          font_path1 = (if length argv > 1 then argv ! 1 else font_path0);
          output_path1 = (if length argv > 2 then argv ! 2 else output_path0)
      in case argv_int P argv 3 16 of
           Inl e \<Rightarrow> Inl e
         | Inr cw \<Rightarrow>
             (case argv_int P argv 4 cw of
                Inl e \<Rightarrow> Inl e
              | Inr ch \<Rightarrow>
                  (case (if length argv > 5
                         then (case int_of_str P (argv ! 5) of
                                 None \<Rightarrow> Inl ValueError | Some v \<Rightarrow> Inr (Some v))
                         else Inr None) of
                     Inl e \<Rightarrow> Inl e
                   | Inr fs \<Rightarrow>
                       (case argv_int P argv 6 1 of
                          Inl e \<Rightarrow> Inl e
                        | Inr pad \<Rightarrow>
                            Inr \<lparr>font_path = font_path1, output_path = output_path1,
                                 cell_width = cw, cell_height = ch, font_size = fs,
                                 first_char = 32, last_char = 126,
                                 include_box_drawing = True, padding = pad\<rparr>))))"

definition main :: "platform \<Rightarrow> string list \<Rightarrow> world \<Rightarrow> ((exn + int) \<times> world) option" where
  "main P argv w0 =
     (case main_args P argv of
        Inl e \<Rightarrow> Some (Inl e, w0)
      | Inr a \<Rightarrow>
          if \<not> path_exists P (font_path a) then
            (case print P w0 (FontNotFound (font_path a)) of
               Inl e \<Rightarrow> Some (Inl e, w0)
             | Inr w1 \<Rightarrow>
                 (case argv of
                    [] \<Rightarrow> Some (Inl IndexError, w1)
                  | prog # _ \<Rightarrow>
                      (case print P w1 (Usage prog) of
                         Inl e \<Rightarrow> Some (Inl e, w1)
                       | Inr w2 \<Rightarrow> Some (Inr 1, w2))))
          else
            (case generate_font_atlas P a w0 of
               None \<Rightarrow> None
             | Some (Inl e, w1) \<Rightarrow> Some (Inl e, w1)
             | Some (Inr success, w1) \<Rightarrow> Some (Inr (if success then 0 else 1), w1)))"

text \<open>
  \<^verbatim>\<open>sys.exit(main())\<close>: the exit status is the value \<^verbatim>\<open>main\<close> returns; an exception
  nobody catches ends the interpreter with status 1.
\<close>

definition exit_status :: "platform \<Rightarrow> string list \<Rightarrow> world \<Rightarrow> (int \<times> world) option" where
  "exit_status P argv w0 =
     (case main P argv w0 of
        None \<Rightarrow> None
      | Some (Inl e, w1) \<Rightarrow> Some (1, w1)
      | Some (Inr code, w1) \<Rightarrow> Some (code, w1))"

section \<open>Notions of the specification\<close>

text \<open>The smallest power of two that is at least \<open>n\<close>.\<close>

definition is_power_of_2 :: "int \<Rightarrow> bool" where
  "is_power_of_2 m = (\<exists>k::nat. m = 2 ^ k)"

definition smallest_power_of_2_ge :: "int \<Rightarrow> int \<Rightarrow> bool" where
  "smallest_power_of_2_ge n m =
     (is_power_of_2 m \<and> n \<le> m \<and> (\<forall>m'. is_power_of_2 m' \<and> n \<le> m' \<longrightarrow> m \<le> m'))"

text \<open>
  The inner (unpadded) cell of atlas index \<open>i\<close>: its origin, and the pixels it holds.
\<close>

definition cellX :: "args \<Rightarrow> nat \<Rightarrow> int" where
  "cellX a i = (int i mod 16) * (cell_width a + 2 * padding a) + padding a"

definition cellY :: "args \<Rightarrow> nat \<Rightarrow> int" where
  "cellY a i = (int i div 16) * (cell_height a + 2 * padding a) + padding a"


text \<open>The shared vertical offset, from the font's metrics and the cell height only.\<close>

definition verticalPadding :: "args \<Rightarrow> font \<Rightarrow> int" where
  "verticalPadding a fnt = (cell_height a - (fst (getmetrics fnt) + snd (getmetrics fnt))) div 2"





text \<open>A world with no files and nothing printed, and a world extended by another.\<close>

definition empty_world :: world where
  "empty_world = \<lparr>files = Map.empty, stdout = []\<rparr>"

definition extend :: "world \<Rightarrow> world \<Rightarrow> world" where
  "extend w d = \<lparr>files = files w ++ files d, stdout = stdout w @ stdout d\<rparr>"

section \<open>A sample platform\<close>

text \<open>
  A rasterizer for trying the script out: every glyph is a horizontal bar 24 pixels
  wide, five rows below the drawing origin; code point 66 has no glyph.
\<close>

definition bar_glyph :: "int \<times> int \<Rightarrow> nat option" where
  "bar_glyph d = (if 0 \<le> fst d \<and> fst d < 24 \<and> snd d = 5 then Some 255 else None)"

definition sample_font :: font where
  "sample_font =
     \<lparr>getmetrics = (12, 4),
      getbbox = (\<lambda>c. if c = 66 then Inl (LibraryError ''no glyph'') else Inr (0, 0, 24, 16)),
      getmask = (\<lambda>c. Inr bar_glyph)\<rparr>"

definition full_font :: font where
  "full_font = sample_font\<lparr>getbbox := (\<lambda>c. Inr (0, 0, 24, 16))\<rparr>"


text \<open>A font with the ASCII glyphs only.\<close>

definition no_box_font :: font where
  "no_box_font =
     full_font\<lparr>getbbox := (\<lambda>c. if c < 0x2500 then Inr (0, 0, 24, 16)
                                else Inl (LibraryError ''no glyph''))\<rparr>"

definition sample_platform :: platform where
  "sample_platform =
     \<lparr>script_dir = ''/tool'',
      path_exists = (\<lambda>p. p = ''font.ttf''),
      int_of_str = (\<lambda>s. if s = ''0'' then Some 0 else if s = ''16'' then Some 16 else None),
      truetype = (\<lambda>p sz. if p = ''font.ttf'' \<and> 0 < sz then Inr sample_font
                          else Inl (LibraryError ''cannot open resource'')),
      can_allocate = (\<lambda>sz. fst sz * snd sz \<le> 2 ^ 28),
      composite = (\<lambda>old ink cov. (old * (255 - cov) + ink * cov) div 255),
      encode = (\<lambda>p im. Inr (''L '' @ str_int (im_width im) @ ''x'' @ str_int (im_height im))),
      writable = (\<lambda>p. True),
      stdout_accepts = (\<lambda>m. True)\<rparr>"

text \<open>
  The same platform with the ASCII-only font and a standard output that encodes
  ASCII only.
\<close>

definition ascii :: "string \<Rightarrow> bool" where
  "ascii s = list_all (\<lambda>ch. of_char ch < (128::nat)) s"

definition ascii_stdout :: "message \<Rightarrow> bool" where
  "ascii_stdout m =
     (case m of
        Warning c e \<Rightarrow> 0 \<le> c \<and> c < 128
      | LoadingFont p \<Rightarrow> ascii p
      | FontNotFound p \<Rightarrow> ascii p
      | Usage p \<Rightarrow> ascii p
      | SavingAtlas p \<Rightarrow> ascii p
      | MetadataSaved p \<Rightarrow> ascii p
      | _ \<Rightarrow> True)"

definition ascii_platform :: platform where
  "ascii_platform =
     sample_platform
       \<lparr>truetype := (\<lambda>p sz. if p = ''font.ttf'' \<and> 0 < sz then Inr no_box_font
                             else Inl (LibraryError ''cannot open resource'')),
        stdout_accepts := ascii_stdout\<rparr>"

definition default_args :: args where
  "default_args =
     \<lparr>font_path = ''font.ttf'', output_path = ''font_atlas.png'',
      cell_width = 16, cell_height = 16, font_size = None,
      first_char = 32, last_char = 126, include_box_drawing = True, padding = 1\<rparr>"

definition two_char_args :: args where
  "two_char_args = default_args\<lparr>first_char := 65, last_char := 66, include_box_drawing := False\<rparr>"

section \<open>Layout: lemmas\<close>

lemma double_while_from:
  "0 < p \<Longrightarrow> \<exists>k. double_while p n = Some (p * 2 ^ k) \<and> n \<le> p * 2 ^ k \<and> (\<forall>j<k. p * 2 ^ j < n)"
proof (induction "nat (n - p)" arbitrary: p rule: less_induct)
  case less
  show ?case
  proof (cases "p < n")
    case False
    then have "double_while p n = Some (p * 2 ^ 0)"
      by (subst double_while.simps) simp
    with False show ?thesis
      by (intro exI[of _ 0]) simp
  next
    case True
    with less.prems have "nat (n - p * 2) < nat (n - p)" "0 < p * 2"
      by auto
    from less.hyps[OF this] obtain k where
      k: "double_while (p * 2) n = Some (p * 2 * 2 ^ k)" "n \<le> p * 2 * 2 ^ k"
         "\<forall>j<k. p * 2 * 2 ^ j < n"
      by blast
    have "double_while p n = Some (p * 2 ^ Suc k)"
      using True k(1) by (subst double_while.simps) (simp add: mult.assoc)
    moreover have "n \<le> p * 2 ^ Suc k"
      using k(2) by (simp add: mult.assoc)
    moreover have "\<forall>j<Suc k. p * 2 ^ j < n"
    proof (intro allI impI)
      fix j assume "j < Suc k"
      show "p * 2 ^ j < n"
      proof (cases j)
        case 0
        with True show ?thesis by simp
      next
        case (Suc j')
        with \<open>j < Suc k\<close> k(3) have "p * 2 * 2 ^ j' < n" by simp
        with Suc show ?thesis by (simp add: mult.assoc)
      qed
    qed
    ultimately show ?thesis by blast
  qed
qed

lemma next_power_of_2_smallest:
  "\<exists>m. next_power_of_2 n = Some m \<and> smallest_power_of_2_ge n m"
proof -
  from double_while_from[of 1 n] obtain k where
    k: "double_while 1 n = Some (2 ^ k)" "n \<le> 2 ^ k" "\<forall>j<k. (2::int) ^ j < n"
    by auto
  have "2 ^ k \<le> m'" if "is_power_of_2 m'" "n \<le> m'" for m'
  proof -
    from that(1) obtain j where j: "m' = 2 ^ j" by (auto simp: is_power_of_2_def)
    have "\<not> j < k" using k(3) that(2) j by auto
    then have "k \<le> j" by simp
    then have "(2::int) ^ k \<le> 2 ^ j" by (simp add: power_increasing)
    with j show ?thesis by simp
  qed
  with k show ?thesis
    by (auto simp: next_power_of_2_def smallest_power_of_2_ge_def is_power_of_2_def)
qed

lemma next_power_of_2_le_1: "n \<le> 1 \<Longrightarrow> next_power_of_2 n = Some 1"
  unfolding next_power_of_2_def by (subst double_while.simps) simp

lemma append_all_eq: "append_all acc xs = acc @ xs"
  unfolding append_all_def by (induction xs arbitrary: acc) auto

lemma char_list_eq:
  "char_list a = [first_char a..last_char a]
                 @ (if include_box_drawing a then [0x2500..0x257F] else [])"
  unfolding char_list_def append_all_eq range_py_def Let_def
  by (simp del: upto_rec_numeral upto.simps)

lemma length_char_list:
  "length (char_list a) =
     nat (last_char a - first_char a + 1) + (if include_box_drawing a then 128 else 0)"
  unfolding char_list_eq by (simp del: upto_rec_numeral upto.simps)

lemma ceiling_div_16: "- (- (c::int) div 16) = (c + 16 - 1) div 16"
  by arith

lemma rows_ceiling: "rows a = \<lceil>real_of_int (char_count a) / 16\<rceil>"
proof -
  have "\<lceil>real_of_int (char_count a) / real_of_int 16\<rceil> = - (- char_count a div 16)"
    by (rule ceiling_divide_eq_div)
  also have "\<dots> = (char_count a + 16 - 1) div 16"
    by (rule ceiling_div_16)
  finally show ?thesis by (simp add: rows_def glyphs_per_row_def)
qed

lemma default_count:
  "first_char a = 32 \<Longrightarrow> last_char a = 126 \<Longrightarrow> include_box_drawing a \<Longrightarrow> char_count a = 223"
  by (simp add: char_count_def length_char_list)


section \<open>Claims about the layout\<close>

text \<open>
  C1. With 16 glyphs per row, padded cells of \<open>cell + 2 * padding\<close> and
  \<open>rows = \<lceil>count / 16\<rceil>\<close>, the atlas width is the smallest power of two that is at
  least \<open>16 * paddedCellWidth\<close> and the atlas height the smallest power of two that
  is at least \<open>rows * paddedCellHeight\<close>, each rounded on its own, and the rounding
  gives 1 for an input of at most 1. The 95 ASCII and 128 box-drawing code points
  give 223 code points and 14 rows. The loop that rounds always ends.
\<close>

theorem atlas_dimensions:
  "\<exists>w h. atlas_width a = Some w \<and> atlas_height a = Some h
     \<and> rows a = \<lceil>real_of_int (char_count a) / 16\<rceil>
     \<and> smallest_power_of_2_ge (16 * (cell_width a + 2 * padding a)) w
     \<and> smallest_power_of_2_ge (\<lceil>real_of_int (char_count a) / 16\<rceil> * (cell_height a + 2 * padding a)) h
     \<and> (16 * (cell_width a + 2 * padding a) \<le> 1 \<longrightarrow> w = 1)
     \<and> (\<lceil>real_of_int (char_count a) / 16\<rceil> * (cell_height a + 2 * padding a) \<le> 1 \<longrightarrow> h = 1)
     \<and> (first_char a = 32 \<and> last_char a = 126 \<and> include_box_drawing a
          \<longrightarrow> char_count a = 223 \<and> rows a = 14)"
proof -
  let ?wi = "16 * (cell_width a + 2 * padding a)"
  let ?hi = "\<lceil>real_of_int (char_count a) / 16\<rceil> * (cell_height a + 2 * padding a)"
  have wi: "glyphs_per_row * padded_cell_width a = ?wi"
    by (simp add: glyphs_per_row_def padded_cell_width_def)
  have hi: "rows a * padded_cell_height a = ?hi"
    by (simp add: rows_ceiling padded_cell_height_def)
  obtain w where w: "atlas_width a = Some w" "smallest_power_of_2_ge ?wi w"
    using next_power_of_2_smallest[of ?wi] by (auto simp: atlas_width_def wi)
  obtain h where h: "atlas_height a = Some h" "smallest_power_of_2_ge ?hi h"
    using next_power_of_2_smallest[of ?hi] by (auto simp: atlas_height_def hi)
  have w1: "?wi \<le> 1 \<longrightarrow> w = 1"
    using w(1) next_power_of_2_le_1[of ?wi] by (auto simp: atlas_width_def wi)
  have h1: "?hi \<le> 1 \<longrightarrow> h = 1"
    using h(1) next_power_of_2_le_1[of ?hi] by (auto simp: atlas_height_def hi)
  have d: "first_char a = 32 \<and> last_char a = 126 \<and> include_box_drawing a
          \<longrightarrow> char_count a = 223 \<and> rows a = 14"
    by (auto simp: default_count rows_def glyphs_per_row_def)
  from w h w1 h1 d rows_ceiling[of a] show ?thesis by blast
qed

text \<open>
  The default run: 288 rounds to 512 and 14 rows of 18 pixels, 252, to 256; a cell
  of width 0 without padding rounds to 1.
\<close>

theorem atlas_dimensions_witness:
  "atlas_width default_args = Some 512 \<and> atlas_height default_args = Some 256
   \<and> smallest_power_of_2_ge 288 512 \<and> smallest_power_of_2_ge 252 256
   \<and> char_count default_args = 223 \<and> rows default_args = 14
   \<and> atlas_width (default_args\<lparr>cell_width := 0, padding := 0\<rparr>) = Some 1"
proof -
  let ?a = default_args
  let ?z = "default_args\<lparr>cell_width := 0, padding := 0\<rparr>"
  have dflt: "first_char ?a = 32 \<and> last_char ?a = 126 \<and> include_box_drawing ?a"
    by (simp add: default_args_def)
  have wi: "16 * (cell_width ?a + 2 * padding ?a) = 288"
    by (simp add: default_args_def)
  from atlas_dimensions[of ?a] obtain w h where
    A: "atlas_width ?a = Some w" "atlas_height ?a = Some h"
       "rows ?a = \<lceil>real_of_int (char_count ?a) / 16\<rceil>"
       "smallest_power_of_2_ge (16 * (cell_width ?a + 2 * padding ?a)) w"
       "smallest_power_of_2_ge (\<lceil>real_of_int (char_count ?a) / 16\<rceil> * (cell_height ?a + 2 * padding ?a)) h"
       "first_char ?a = 32 \<and> last_char ?a = 126 \<and> include_box_drawing ?a
          \<longrightarrow> char_count ?a = 223 \<and> rows ?a = 14"
    by (elim exE conjE)
  from A(6) dflt have c: "char_count ?a = 223" "rows ?a = 14"
    by blast+
  have hi: "\<lceil>real_of_int (char_count ?a) / 16\<rceil> * (cell_height ?a + 2 * padding ?a) = 252"
    unfolding A(3)[symmetric] c by (simp add: default_args_def)
  have w: "atlas_width ?a = Some 512"
    by (simp add: atlas_width_def next_power_of_2_def glyphs_per_row_def padded_cell_width_def
        default_args_def double_while.simps)
  have h: "atlas_height ?a = Some 256"
    unfolding atlas_height_def c
    by (simp add: next_power_of_2_def padded_cell_height_def default_args_def double_while.simps)
  from A(1) w have "w = 512" by simp
  with A(4) wi have s1: "smallest_power_of_2_ge 288 512" by simp
  from A(2) h have "h = 256" by simp
  with A(5) hi have s2: "smallest_power_of_2_ge 252 256" by simp
  have zi: "16 * (cell_width ?z + 2 * padding ?z) \<le> 1"
    by (simp add: default_args_def)
  from atlas_dimensions[of ?z] obtain w' h' where
    Z: "atlas_width ?z = Some w'" "atlas_height ?z = Some h'" "16 * (cell_width ?z + 2 * padding ?z) \<le> 1 \<longrightarrow> w' = 1"
    by (elim exE conjE)
  from Z zi have z: "atlas_width ?z = Some 1" by blast
  from c w h s1 s2 z show ?thesis by blast
qed

section \<open>Claims about the code point sequence\<close>

lemma nth_char_list:
  assumes "i < length (char_list a)"
  shows "char_list a ! i =
           (if int i < last_char a - first_char a + 1 then first_char a + int i
            else 0x2500 + (int i - max 0 (last_char a - first_char a + 1)))"
proof (cases "int i < last_char a - first_char a + 1")
  case True
  then have "i < length [first_char a..last_char a]" by simp
  then have "char_list a ! i = [first_char a..last_char a] ! i"
    unfolding char_list_eq by (simp only: nth_append if_True)
  also have "\<dots> = first_char a + int i"
    using True by (intro nth_upto) simp
  finally show ?thesis using True by simp
next
  case False
  let ?n = "nat (last_char a - first_char a + 1)"
  have n: "length [first_char a..last_char a] = ?n" by simp
  from False have ge: "?n \<le> i" by simp
  with assms have box: "include_box_drawing a" and lt: "i - ?n < 128"
    by (auto simp: length_char_list split: if_splits)
  have "char_list a ! i = [0x2500..0x257F] ! (i - ?n)"
    unfolding char_list_eq using box ge n by (simp only: nth_append if_True) simp
  also have "\<dots> = 0x2500 + int (i - ?n)"
    using lt by (intro nth_upto) simp
  also have "int (i - ?n) = int i - max 0 (last_char a - first_char a + 1)"
    using ge by simp
  finally show ?thesis using False by simp
qed

lemma sorted_wrt_less_upto: "sorted_wrt (<) [i..j::int]"
  by (simp add: strict_sorted_iff)

lemma render_char_cell:
  assumes "chr_ok (char_list a ! i)"
  shows "render_char P a fnt i (im, w) =
           (case draw_char P a fnt im (char_list a ! i) (cellX a i) (cellY a i) of
              Inl e \<Rightarrow>
                (case print P w (Warning (char_list a ! i) e) of
                   Inl e' \<Rightarrow> (Inl e', w)
                 | Inr w' \<Rightarrow> (Inr im, w'))
            | Inr im' \<Rightarrow> (Inr im', w))"
  using assms
  by (simp add: render_char_def Let_def cellX_def cellY_def glyphs_per_row_def
      padded_cell_width_def padded_cell_height_def mult.commute)

text \<open>
  C2. The code point sequence is the ASCII range \<open>first_char \<dots> last_char\<close> in
  ascending order, followed, when box drawing is requested, by \<open>0x2500 \<dots> 0x257F\<close> in
  ascending order. The atlas index of a code point is its position in this sequence:
  turn \<open>i\<close> of the rendering loop draws \<open>char_list ! i\<close> into the cell of row
  \<open>i div 16\<close> and column \<open>i mod 16\<close>. With the range 32 to 126 and box drawing, index
  0 is code point 32, index 94 is 126 and index 95 is 0x2500.
\<close>

theorem codepoint_sequence:
  "char_list a = [first_char a..last_char a]
                 @ (if include_box_drawing a then [0x2500..0x257F] else [])
   \<and> sorted_wrt (<) [first_char a..last_char a] \<and> sorted_wrt (<) [0x2500..0x257F::int]
   \<and> (\<forall>i<length (char_list a).
          char_list a ! i =
            (if int i < last_char a - first_char a + 1 then first_char a + int i
             else 0x2500 + (int i - max 0 (last_char a - first_char a + 1))))
   \<and> (\<forall>i<length (char_list a). \<forall>P fnt im w. chr_ok (char_list a ! i) \<longrightarrow>
          render_char P a fnt i (im, w) =
            (case draw_char P a fnt im (char_list a ! i)
                    ((int i mod 16) * (cell_width a + 2 * padding a) + padding a)
                    ((int i div 16) * (cell_height a + 2 * padding a) + padding a) of
               Inl e \<Rightarrow>
                 (case print P w (Warning (char_list a ! i) e) of
                    Inl e' \<Rightarrow> (Inl e', w)
                  | Inr w' \<Rightarrow> (Inr im, w'))
             | Inr im' \<Rightarrow> (Inr im', w)))
   \<and> (first_char a = 32 \<and> last_char a = 126 \<and> include_box_drawing a \<longrightarrow>
          length (char_list a) = 223 \<and> char_list a ! 0 = 32 \<and> char_list a ! 94 = 126
          \<and> char_list a ! 95 = 0x2500)"
proof -
  have nth: "\<forall>i<length (char_list a).
          char_list a ! i =
            (if int i < last_char a - first_char a + 1 then first_char a + int i
             else 0x2500 + (int i - max 0 (last_char a - first_char a + 1)))"
    using nth_char_list by blast
  have cell: "\<forall>i<length (char_list a). \<forall>P fnt im w. chr_ok (char_list a ! i) \<longrightarrow>
          render_char P a fnt i (im, w) =
            (case draw_char P a fnt im (char_list a ! i)
                    ((int i mod 16) * (cell_width a + 2 * padding a) + padding a)
                    ((int i div 16) * (cell_height a + 2 * padding a) + padding a) of
               Inl e \<Rightarrow>
                 (case print P w (Warning (char_list a ! i) e) of
                    Inl e' \<Rightarrow> (Inl e', w)
                  | Inr w' \<Rightarrow> (Inr im, w'))
             | Inr im' \<Rightarrow> (Inr im', w))"
    using render_char_cell[of a] by (simp add: cellX_def cellY_def)
  have dflt: "length (char_list a) = 223 \<and> char_list a ! 0 = 32 \<and> char_list a ! 94 = 126
          \<and> char_list a ! 95 = 0x2500"
    if d: "first_char a = 32 \<and> last_char a = 126 \<and> include_box_drawing a"
  proof -
    from d have len: "length (char_list a) = 223" by (simp add: length_char_list)
    then have "char_list a ! 0 = 32" "char_list a ! 94 = 126" "char_list a ! 95 = 0x2500"
      using d nth_char_list[of 0 a] nth_char_list[of 94 a] nth_char_list[of 95 a] by simp_all
    with len show ?thesis by simp
  qed
  from char_list_eq[of a] sorted_wrt_less_upto nth cell dflt show ?thesis
    by blast
qed

text \<open>The default run at index 95: code point 0x2500, in row 5 and column 15.\<close>

theorem codepoint_sequence_witness:
  "length (char_list default_args) = 223 \<and> char_list default_args ! 0 = 32
   \<and> char_list default_args ! 94 = 126 \<and> char_list default_args ! 95 = 0x2500
   \<and> chr_ok (char_list default_args ! 95)
   \<and> render_char sample_platform default_args sample_font 95 (filled_image (512, 256) 0, empty_world)
       = (case draw_char sample_platform default_args sample_font (filled_image (512, 256) 0)
                 0x2500 271 91 of
            Inl e \<Rightarrow>
              (case print sample_platform empty_world (Warning 0x2500 e) of
                 Inl e' \<Rightarrow> (Inl e', empty_world)
               | Inr w' \<Rightarrow> (Inr (filled_image (512, 256) 0), w'))
          | Inr im' \<Rightarrow> (Inr im', empty_world))"
proof -
  let ?a = default_args
  have d: "first_char ?a = 32 \<and> last_char ?a = 126 \<and> include_box_drawing ?a"
    by (simp add: default_args_def)
  have C: "first_char ?a = 32 \<and> last_char ?a = 126 \<and> include_box_drawing ?a \<longrightarrow>
          length (char_list ?a) = 223 \<and> char_list ?a ! 0 = 32 \<and> char_list ?a ! 94 = 126
          \<and> char_list ?a ! 95 = 0x2500"
    and R: "\<forall>i<length (char_list ?a). \<forall>P fnt im w. chr_ok (char_list ?a ! i) \<longrightarrow>
          render_char P ?a fnt i (im, w) =
            (case draw_char P ?a fnt im (char_list ?a ! i)
                    ((int i mod 16) * (cell_width ?a + 2 * padding ?a) + padding ?a)
                    ((int i div 16) * (cell_height ?a + 2 * padding ?a) + padding ?a) of
               Inl e \<Rightarrow>
                 (case print P w (Warning (char_list ?a ! i) e) of
                    Inl e' \<Rightarrow> (Inl e', w)
                  | Inr w' \<Rightarrow> (Inr im, w'))
             | Inr im' \<Rightarrow> (Inr im', w))"
    using codepoint_sequence[of ?a] by blast+
  from C d have v: "length (char_list ?a) = 223" "char_list ?a ! 0 = 32"
    "char_list ?a ! 94 = 126" "char_list ?a ! 95 = 0x2500"
    by blast+
  have ok: "chr_ok (char_list ?a ! 95)" by (simp add: v chr_ok_def)
  have lt: "95 < length (char_list ?a)" by (simp add: v)
  have x: "(int 95 mod 16) * (cell_width ?a + 2 * padding ?a) + padding ?a = 271"
    and y: "(int 95 div 16) * (cell_height ?a + 2 * padding ?a) + padding ?a = 91"
    by (simp_all add: default_args_def)
  from R lt ok have "render_char sample_platform ?a sample_font 95 (filled_image (512, 256) 0, empty_world)
       = (case draw_char sample_platform ?a sample_font (filled_image (512, 256) 0)
                 (char_list ?a ! 95)
                 ((int 95 mod 16) * (cell_width ?a + 2 * padding ?a) + padding ?a)
                 ((int 95 div 16) * (cell_height ?a + 2 * padding ?a) + padding ?a) of
            Inl e \<Rightarrow>
              (case print sample_platform empty_world (Warning (char_list ?a ! 95) e) of
                 Inl e' \<Rightarrow> (Inl e', empty_world)
               | Inr w' \<Rightarrow> (Inr (filled_image (512, 256) 0), w'))
          | Inr im' \<Rightarrow> (Inr im', empty_world))"
    by blast
  then have r: "render_char sample_platform ?a sample_font 95 (filled_image (512, 256) 0, empty_world)
       = (case draw_char sample_platform ?a sample_font (filled_image (512, 256) 0)
                 0x2500 271 91 of
            Inl e \<Rightarrow>
              (case print sample_platform empty_world (Warning 0x2500 e) of
                 Inl e' \<Rightarrow> (Inl e', empty_world)
               | Inr w' \<Rightarrow> (Inr (filled_image (512, 256) 0), w'))
          | Inr im' \<Rightarrow> (Inr im', empty_world))"
    unfolding x y v .
  from v ok r show ?thesis by blast
qed

section \<open>Claims about glyph placement\<close>

lemma draw_char_glyph:
  assumes "c \<noteq> 95" "getbbox fnt c = Inr (bl, bt, br, bb)"
  shows "draw_char P a fnt im c x y =
           ImageDraw_text P im (x + (cell_width a - (br - bl)) div 2, y + verticalPadding a fnt - 2)
             c fnt 255"
  using assms
  by (simp add: draw_char_def Let_def verticalPadding_def split: prod.splits)


text \<open>
  C3. A code point other than the underscore, at index \<open>i\<close> with inner cell origin
  \<open>(cellX, cellY)\<close>, is drawn with its origin at
  \<open>(cellX + offsetX, cellY + verticalPadding - 2)\<close>, where
  \<open>offsetX = (cellWidth - (bboxRight - bboxLeft)) div 2\<close> comes from the glyph's
  own bounding box and \<open>verticalPadding = (cellHeight - (ascent + descent)) div 2\<close>
  from the font's metrics and the cell height alone: it is the same for every glyph
  of a run. The glyph's mask is pasted with value 255 from that origin.
\<close>

theorem glyph_origin:
  assumes "i < length (char_list a)" and "char_list a ! i = c" and "chr_ok c" and "c \<noteq> 95"
    and "getbbox fnt c = Inr (bboxLeft, bboxTop, bboxRight, bboxBottom)"
  shows "render_char P a fnt i (im, w) =
           (case ImageDraw_text P im
                   (cellX a i + (cell_width a - (bboxRight - bboxLeft)) div 2,
                    cellY a i + verticalPadding a fnt - 2) c fnt 255 of
              Inl e \<Rightarrow>
                (case print P w (Warning c e) of
                   Inl e' \<Rightarrow> (Inl e', w)
                 | Inr w' \<Rightarrow> (Inr im, w'))
            | Inr im' \<Rightarrow> (Inr im', w))
         \<and> (\<forall>cover. getmask fnt c = Inr cover \<longrightarrow>
               (\<exists>im'. render_char P a fnt i (im, w) = (Inr im', w) \<and>
                  (\<forall>p. px im' p =
                     (if inside im p
                      then (case cover (fst p - (cellX a i + (cell_width a - (bboxRight - bboxLeft)) div 2),
                                        snd p - (cellY a i + verticalPadding a fnt - 2)) of
                              None \<Rightarrow> px im p
                            | Some cov \<Rightarrow> composite P (px im p) 255 cov)
                      else px im p))))"
proof -
  have r: "render_char P a fnt i (im, w) =
           (case ImageDraw_text P im
                   (cellX a i + (cell_width a - (bboxRight - bboxLeft)) div 2,
                    cellY a i + verticalPadding a fnt - 2) c fnt 255 of
              Inl e \<Rightarrow>
                (case print P w (Warning c e) of
                   Inl e' \<Rightarrow> (Inl e', w)
                 | Inr w' \<Rightarrow> (Inr im, w'))
            | Inr im' \<Rightarrow> (Inr im', w))"
  proof -
    have ok: "chr_ok (char_list a ! i)" using assms(2,3) by simp
    show ?thesis
      using render_char_cell[OF ok, of P fnt im w, unfolded assms(2)]
      by (simp only: draw_char_glyph[OF assms(4,5)])
  qed
  then show ?thesis
    by (auto simp: ImageDraw_text_def)
qed

text \<open>
  Code point 65 in the first cell, with a glyph 24 pixels wide in a cell of 16: the
  origin is 4 pixels left of the cell and one row above it.
\<close>

theorem glyph_origin_witness:
  "char_list two_char_args ! 0 = 65 \<and> chr_ok 65
   \<and> getbbox sample_font 65 = Inr (0, 0, 24, 16)
   \<and> verticalPadding two_char_args sample_font = 0
   \<and> render_char sample_platform two_char_args sample_font 0 (filled_image (512, 32) 0, empty_world)
       = (case ImageDraw_text sample_platform (filled_image (512, 32) 0) (- 3, - 1) 65 sample_font 255 of
            Inl e \<Rightarrow>
              (case print sample_platform empty_world (Warning 65 e) of
                 Inl e' \<Rightarrow> (Inl e', empty_world)
               | Inr w' \<Rightarrow> (Inr (filled_image (512, 32) 0), w'))
          | Inr im' \<Rightarrow> (Inr im', empty_world))"
proof -
  let ?a = two_char_args
  have len: "0 < length (char_list ?a)"
    by (simp add: length_char_list two_char_args_def default_args_def)
  then have c: "char_list ?a ! 0 = 65"
    using nth_char_list[of 0 ?a] by (simp add: two_char_args_def default_args_def)
  have ok: "chr_ok 65" by (simp add: chr_ok_def)
  have ne: "(65::int) \<noteq> 95" by simp
  have bb: "getbbox sample_font 65 = Inr (0, 0, 24, 16)"
    by (simp add: sample_font_def)
  have vp: "verticalPadding ?a sample_font = 0"
    by (simp add: verticalPadding_def sample_font_def two_char_args_def default_args_def)
  have x: "cellX ?a 0 + (cell_width ?a - (24 - 0)) div 2 = - 3"
    and y: "cellY ?a 0 + 0 - 2 = - 1"
    by (simp_all add: cellX_def cellY_def two_char_args_def default_args_def)
  from glyph_origin[OF len c ok ne bb, of sample_platform "filled_image (512, 32) 0" empty_world]
  have "render_char sample_platform ?a sample_font 0 (filled_image (512, 32) 0, empty_world)
       = (case ImageDraw_text sample_platform (filled_image (512, 32) 0)
                 (cellX ?a 0 + (cell_width ?a - (24 - 0)) div 2,
                  cellY ?a 0 + verticalPadding ?a sample_font - 2) 65 sample_font 255 of
            Inl e \<Rightarrow>
              (case print sample_platform empty_world (Warning 65 e) of
                 Inl e' \<Rightarrow> (Inl e', empty_world)
               | Inr w' \<Rightarrow> (Inr (filled_image (512, 32) 0), w'))
          | Inr im' \<Rightarrow> (Inr im', empty_world))"
    by blast
  then have "render_char sample_platform ?a sample_font 0 (filled_image (512, 32) 0, empty_world)
       = (case ImageDraw_text sample_platform (filled_image (512, 32) 0) (- 3, - 1) 65 sample_font 255 of
            Inl e \<Rightarrow>
              (case print sample_platform empty_world (Warning 65 e) of
                 Inl e' \<Rightarrow> (Inl e', empty_world)
               | Inr w' \<Rightarrow> (Inr (filled_image (512, 32) 0), w'))
          | Inr im' \<Rightarrow> (Inr im', empty_world))"
    unfolding vp x y .
  with c ok bb vp show ?thesis by blast
qed




section \<open>The world only grows: frame lemmas\<close>

lemma extend_empty: "extend w empty_world = w"
  by (simp add: extend_def empty_world_def)

lemma extend_assoc: "extend (extend w d) e = extend w (extend d e)"
  by (simp add: extend_def)

lemma files_extend: "files (extend w d) = files w ++ files d"
  and stdout_extend: "stdout (extend w d) = stdout w @ stdout d"
  by (simp_all add: extend_def)

lemma print_extend:
  "print P (extend w d) m =
     (case print P d m of Inl e \<Rightarrow> Inl e | Inr d' \<Rightarrow> Inr (extend w d'))"
  by (simp add: print_def extend_def)

lemma prints_extend:
  "prints P (extend w d) ms = (case prints P d ms of (r, d') \<Rightarrow> (r, extend w d'))"
proof (induction ms arbitrary: d)
  case Nil
  show ?case by simp
next
  case (Cons m ms)
  show ?case
  proof (cases "print P d m")
    case (Inl e)
    then show ?thesis by (simp add: print_extend)
  next
    case (Inr d1)
    with Cons.IH[of d1] show ?thesis by (simp add: print_extend)
  qed
qed

lemma write_file_extend:
  "write_file P (extend w d) path content =
     (case write_file P d path content of Inl e \<Rightarrow> Inl e | Inr d' \<Rightarrow> Inr (extend w d'))"
  by (simp add: write_file_def extend_def)

lemma render_char_frame:
  "render_char P a fnt i (im, extend w d) =
     (case render_char P a fnt i (im, d) of (r, d') \<Rightarrow> (r, extend w d'))"
  by (simp add: render_char_def Let_def print_extend split: sum.splits)

lemma render_loop_frame:
  "render_loop P a fnt idxs (im, extend w d) =
     (case render_loop P a fnt idxs (im, d) of (r, d') \<Rightarrow> (r, extend w d'))"
proof (induction idxs arbitrary: im d)
  case Nil
  show ?case by simp
next
  case (Cons i idxs)
  obtain r d1 where s: "render_char P a fnt i (im, d) = (r, d1)"
    by (cases "render_char P a fnt i (im, d)")
  show ?case
  proof (cases r)
    case (Inl e)
    with s show ?thesis by (simp add: render_char_frame)
  next
    case (Inr im1)
    with s Cons.IH[of im1 d1] show ?thesis by (simp add: render_char_frame)
  qed
qed

lemma render_atlas_frame:
  "render_atlas P a fnt aw ah (extend w d) =
     (case render_atlas P a fnt aw ah d of (r, d') \<Rightarrow> (r, extend w d'))"
  by (simp add: render_atlas_def render_loop_frame split: sum.splits)

lemma save_outputs_frame:
  "save_outputs P a aw ah atlas (extend w d) =
     (case save_outputs P a aw ah atlas d of (r, d') \<Rightarrow> (r, extend w d'))"
  by (simp add: save_outputs_def print_extend prints_extend write_file_extend
      split: sum.splits prod.splits option.splits)

lemma generate_frame:
  "generate_font_atlas P a (extend w d) =
     map_option (\<lambda>(r, d'). (r, extend w d')) (generate_font_atlas P a d)"
  by (simp add: generate_font_atlas_def print_extend prints_extend render_atlas_frame
      save_outputs_frame Let_def
      split: sum.splits prod.splits option.splits)

lemma generate_from_empty:
  "generate_font_atlas P a w =
     map_option (\<lambda>(r, d). (r, extend w d)) (generate_font_atlas P a empty_world)"
  using generate_frame[of P a w empty_world] by (simp add: extend_empty)

section \<open>The rendering loop and the saving step\<close>

lemma prints_accept:
  assumes "\<forall>m\<in>set ms. stdout_accepts P m"
  shows "prints P w ms = (None, w\<lparr>stdout := stdout w @ ms\<rparr>)"
  using assms by (induction ms arbitrary: w) (simp_all add: print_def)

lemma prints_files: "files (snd (prints P w ms)) = files w"
proof (induction ms arbitrary: w)
  case Nil
  show ?case by simp
next
  case (Cons m ms)
  show ?case
  proof (cases "stdout_accepts P m")
    case True
    with Cons.IH[of "w\<lparr>stdout := stdout w @ [m]\<rparr>"] show ?thesis by (simp add: print_def)
  next
    case False
    then show ?thesis by (simp add: print_def)
  qed
qed

lemma prints_files_eq: "prints P w ms = (r, w') \<Longrightarrow> files w' = files w"
  using prints_files[of P w ms] by simp

lemma print_files_eq: "print P w m = Inr w' \<Longrightarrow> files w' = files w"
  by (auto simp: print_def split: if_splits)

lemma draw_char_size:
  "draw_char P a fnt im c x y = Inr im' \<Longrightarrow> im_width im' = im_width im \<and> im_height im' = im_height im"
  by (auto simp: draw_char_def Let_def ImageDraw_rectangle_def ImageDraw_text_def
      split: prod.splits if_splits sum.splits)

lemma render_char_size:
  assumes "render_char P a fnt i (im, w) = (Inr im', w')"
  shows "im_width im' = im_width im \<and> im_height im' = im_height im"
  using assms
  by (auto simp: render_char_def Let_def split: if_splits sum.splits dest: draw_char_size)

lemma render_char_total:
  assumes "chr_ok (char_list a ! i)" and "\<forall>m. stdout_accepts P m"
  shows "\<exists>im'. fst (render_char P a fnt i (im, w)) = Inr im'
           \<and> im_width im' = im_width im \<and> im_height im' = im_height im"
  using assms render_char_cell[OF assms(1), of P fnt im w]
  by (auto simp: print_def split: sum.splits dest: draw_char_size)

lemma render_loop_total:
  assumes "\<forall>i\<in>set idxs. chr_ok (char_list a ! i)" and "\<forall>m. stdout_accepts P m"
  shows "\<exists>im'. fst (render_loop P a fnt idxs (im, w)) = Inr im'
           \<and> im_width im' = im_width im \<and> im_height im' = im_height im"
  using assms(1)
proof (induction idxs arbitrary: im w)
  case Nil
  show ?case by simp
next
  case (Cons i idxs)
  then have ok: "chr_ok (char_list a ! i)" by simp
  obtain r w1 where s: "render_char P a fnt i (im, w) = (r, w1)"
    by (cases "render_char P a fnt i (im, w)")
  with render_char_total[OF ok assms(2), of fnt im w] obtain im1 where
    im1: "r = Inr im1" "im_width im1 = im_width im" "im_height im1 = im_height im"
    by auto
  from Cons.IH[of im1 w1] Cons.prems obtain im' where
    "fst (render_loop P a fnt idxs (im1, w1)) = Inr im'"
    "im_width im' = im_width im1" "im_height im' = im_height im1"
    by auto
  with s im1 show ?case by simp
qed

lemma Image_new_Inr:
  "Image_new P sz color = Inr im \<Longrightarrow> im = filled_image sz color"
  by (auto simp: Image_new_def split: if_splits)

lemma render_atlas_total:
  assumes "\<forall>c\<in>set (char_list a). chr_ok c" and "\<forall>m. stdout_accepts P m"
    and "\<not> isl (Image_new P (aw, ah) 0)"
  shows "\<exists>atlas. fst (render_atlas P a fnt aw ah w) = Inr atlas
           \<and> im_width atlas = aw \<and> im_height atlas = ah"
proof -
  from assms(3) obtain im0 where n: "Image_new P (aw, ah) 0 = Inr im0"
    by (cases "Image_new P (aw, ah) 0") auto
  then have sz: "im_width im0 = aw" "im_height im0 = ah"
    by (auto dest: Image_new_Inr simp: filled_image_def)
  have "\<forall>i\<in>set [0..<length (char_list a)]. chr_ok (char_list a ! i)"
    using assms(1) by simp
  from render_loop_total[OF this assms(2), of fnt im0 w] n sz
  show ?thesis by (simp add: render_atlas_def)
qed

lemma save_outputs_True:
  assumes "save_outputs P a aw ah atlas w = (Inr True, w')"
  shows "\<exists>bytes. encode P (output_path a) atlas = Inr bytes
           \<and> files w' = (files w)(output_path a \<mapsto> bytes, header_path a \<mapsto> header_text a aw ah)"
  using assms
  by (auto simp: save_outputs_def write_file_def print_def
      split: sum.splits if_splits prod.splits option.splits)

lemma save_outputs_ok:
  assumes "encode P (output_path a) atlas = Inr bytes"
    and "writable P (output_path a)" and "writable P (header_path a)"
    and "\<forall>m. stdout_accepts P m"
  shows "\<exists>w'. save_outputs P a aw ah atlas w = (Inr True, w')
           \<and> files w' = (files w)(output_path a \<mapsto> bytes, header_path a \<mapsto> header_text a aw ah)"
  using assms
  by (simp add: save_outputs_def write_file_def print_def)

lemma atlas_size_exists: "\<exists>aw ah. atlas_width a = Some aw \<and> atlas_height a = Some ah"
  using next_power_of_2_smallest[of "glyphs_per_row * padded_cell_width a"]
    next_power_of_2_smallest[of "rows a * padded_cell_height a"]
  by (auto simp: atlas_width_def atlas_height_def)

lemma generate_returns: "\<exists>r w'. generate_font_atlas P a w = Some (r, w')"
proof -
  obtain aw ah where "atlas_width a = Some aw" "atlas_height a = Some ah"
    using atlas_size_exists by blast
  then show ?thesis
    by (auto simp: generate_font_atlas_def Let_def
        split: prod.splits sum.splits option.splits)
qed

lemma render_char_files: "files (snd (render_char P a fnt i (im, w))) = files w"
  by (auto simp: render_char_def Let_def print_def split: sum.splits)

lemma render_loop_files: "files (snd (render_loop P a fnt idxs (im, w))) = files w"
proof (induction idxs arbitrary: im w)
  case Nil
  show ?case by simp
next
  case (Cons i idxs)
  obtain r w1 where s: "render_char P a fnt i (im, w) = (r, w1)"
    by (cases "render_char P a fnt i (im, w)")
  with render_char_files[of P a fnt i im w] have f: "files w1 = files w" by simp
  show ?case
  proof (cases r)
    case (Inl e)
    with s f show ?thesis by simp
  next
    case (Inr im1)
    with s f Cons.IH[of im1 w1] show ?thesis by simp
  qed
qed

lemma render_atlas_files: "files (snd (render_atlas P a fnt aw ah w)) = files w"
  by (simp add: render_atlas_def render_loop_files split: sum.splits)

lemma render_atlas_fst:
  "fst (render_atlas P a fnt aw ah w) = fst (render_atlas P a fnt aw ah empty_world)"
  using render_atlas_frame[of P a fnt aw ah w empty_world]
  by (simp add: extend_empty split: prod.splits)

lemma save_outputs_not_True_files:
  assumes "save_outputs P a aw ah atlas w = (r, w')"
  shows "set (stdout w) \<subseteq> set (stdout w')"
  using assms
  by (auto simp: save_outputs_def write_file_def print_def
      split: sum.splits if_splits prod.splits option.splits)

lemma generate_load_failure:
  assumes "truetype P (font_path a) (actual_font_size a) = Inl e"
  shows "\<exists>r w'. generate_font_atlas P a w = Some (r, w') \<and> r \<noteq> Inr True \<and> files w' = files w
           \<and> ((\<forall>m. stdout_accepts P m) \<longrightarrow> r = Inr False \<and> ErrorLoadingFont e \<in> set (stdout w'))"
  using assms
  by (auto simp: generate_font_atlas_def print_def split: if_splits)

lemma generate_True_cases:
  assumes "generate_font_atlas P a w = Some (Inr True, w')"
  shows "\<exists>fnt aw ah w3 atlas w4.
           truetype P (font_path a) (actual_font_size a) = Inr fnt
           \<and> atlas_width a = Some aw \<and> atlas_height a = Some ah
           \<and> files w3 = files w
           \<and> render_atlas P a fnt aw ah w3 = (Inr atlas, w4)
           \<and> save_outputs P a aw ah atlas w4 = (Inr True, w')"
proof -
  from assms obtain fnt aw ah ms1 ms2 ms3 w1 w2 w3 atlas w4 where
    l: "truetype P (font_path a) (actual_font_size a) = Inr fnt"
    and sz: "atlas_width a = Some aw" "atlas_height a = Some ah"
    and p: "prints P w ms1 = (None, w1)" "prints P w1 ms2 = (None, w2)"
      "prints P w2 ms3 = (None, w3)"
    and ra: "render_atlas P a fnt aw ah w3 = (Inr atlas, w4)"
    and so: "save_outputs P a aw ah atlas w4 = (Inr True, w')"
    unfolding generate_font_atlas_def Let_def
    by (fastforce simp del: prints.simps
        split: prod.splits option.splits sum.splits)
  have "files w3 = files w"
    using prints_files_eq[OF p(1)] prints_files_eq[OF p(2)] prints_files_eq[OF p(3)] by simp
  with l sz ra so show ?thesis by blast
qed

lemma generate_True_files:
  assumes "generate_font_atlas P a w = Some (Inr True, w')"
  shows "\<exists>fnt aw ah atlas bytes.
           truetype P (font_path a) (actual_font_size a) = Inr fnt
           \<and> atlas_width a = Some aw \<and> atlas_height a = Some ah
           \<and> fst (render_atlas P a fnt aw ah empty_world) = Inr atlas
           \<and> encode P (output_path a) atlas = Inr bytes
           \<and> files w' = (files w)(output_path a \<mapsto> bytes, header_path a \<mapsto> header_text a aw ah)"
proof -
  from generate_True_cases[OF assms] obtain fnt aw ah w3 atlas w4 where
    l: "truetype P (font_path a) (actual_font_size a) = Inr fnt"
    and sz: "atlas_width a = Some aw" "atlas_height a = Some ah"
    and f3: "files w3 = files w"
    and ra: "render_atlas P a fnt aw ah w3 = (Inr atlas, w4)"
    and so: "save_outputs P a aw ah atlas w4 = (Inr True, w')"
    by blast
  from render_atlas_files[of P a fnt aw ah w3] ra f3 have f4: "files w4 = files w" by simp
  from ra render_atlas_fst[of P a fnt aw ah w3]
  have "fst (render_atlas P a fnt aw ah empty_world) = Inr atlas" by simp
  moreover from save_outputs_True[OF so] f4 obtain bytes where
    "encode P (output_path a) atlas = Inr bytes"
    "files w' = (files w)(output_path a \<mapsto> bytes, header_path a \<mapsto> header_text a aw ah)"
    by auto
  ultimately show ?thesis using l sz by blast
qed

lemma generate_loaded:
  assumes "truetype P (font_path a) (actual_font_size a) = Inr fnt"
    and "atlas_width a = Some aw" and "atlas_height a = Some ah"
    and "\<forall>m. stdout_accepts P m"
  shows "\<exists>w3. files w3 = files w \<and> set (stdout w) \<subseteq> set (stdout w3) \<and>
           generate_font_atlas P a w =
             (case render_atlas P a fnt aw ah w3 of
                (Inl e, w4) \<Rightarrow> Some (Inl e, w4)
              | (Inr atlas', w4) \<Rightarrow> Some (save_outputs P a aw ah atlas' w4))"
proof -
  let ?ms = "[LoadingFont (font_path a), CellSize (cell_width a) (cell_height a),
              FontSizePt (actual_font_size a),
              FontMetrics (fst (getmetrics fnt)) (snd (getmetrics fnt)) (fst (getmetrics fnt))]
             @ (if include_box_drawing a then [IncludingBoxDrawing (0x2580 - 0x2500)] else [])
             @ [AtlasSize aw ah, Rendering (char_count a)]"
  define w3 where "w3 = w\<lparr>stdout := stdout w @ ?ms\<rparr>"
  have "files w3 = files w" "set (stdout w) \<subseteq> set (stdout w3)"
    by (auto simp: w3_def)
  moreover have "generate_font_atlas P a w =
             (case render_atlas P a fnt aw ah w3 of
                (Inl e, w4) \<Rightarrow> Some (Inl e, w4)
              | (Inr atlas', w4) \<Rightarrow> Some (save_outputs P a aw ah atlas' w4))"
    using assms
    by (simp add: generate_font_atlas_def w3_def print_def Let_def split: prod.splits)
  ultimately show ?thesis by blast
qed

lemma generate_success:
  assumes load: "truetype P (font_path a) (actual_font_size a) = Inr fnt"
    and chr: "\<forall>c\<in>set (char_list a). chr_ok c"
    and sz: "atlas_width a = Some aw" "atlas_height a = Some ah"
    and img: "\<not> isl (Image_new P (aw, ah) 0)"
    and acc: "\<forall>m. stdout_accepts P m"
    and enc: "\<forall>im. \<not> isl (encode P (output_path a) im)"
    and wr: "writable P (output_path a)" "writable P (header_path a)"
  shows "\<exists>w' atlas bytes.
           generate_font_atlas P a w = Some (Inr True, w')
           \<and> fst (render_atlas P a fnt aw ah empty_world) = Inr atlas
           \<and> encode P (output_path a) atlas = Inr bytes
           \<and> files w' = (files w)(output_path a \<mapsto> bytes, header_path a \<mapsto> header_text a aw ah)
           \<and> set (stdout (snd (render_atlas P a fnt aw ah empty_world))) \<subseteq> set (stdout w')"
proof -
  from generate_loaded[OF load sz acc, of w] obtain w3 where
    w3: "files w3 = files w"
    and g: "generate_font_atlas P a w =
             (case render_atlas P a fnt aw ah w3 of
                (Inl e, w4) \<Rightarrow> Some (Inl e, w4)
              | (Inr atlas', w4) \<Rightarrow> Some (save_outputs P a aw ah atlas' w4))"
    by blast
  obtain r d where e: "render_atlas P a fnt aw ah empty_world = (r, d)"
    by (cases "render_atlas P a fnt aw ah empty_world")
  from render_atlas_total[OF chr acc img, of fnt empty_world] e obtain atlas where
    r: "r = Inr atlas" by auto
  from render_atlas_frame[of P a fnt aw ah w3 empty_world] e r
  have ra: "render_atlas P a fnt aw ah w3 = (Inr atlas, extend w3 d)"
    by (simp add: extend_empty)
  from render_atlas_files[of P a fnt aw ah w3] ra w3
  have f4: "files (extend w3 d) = files w" by simp
  from enc obtain bytes where b: "encode P (output_path a) atlas = Inr bytes"
    using spec[OF enc, of atlas] by (cases "encode P (output_path a) atlas") auto
  from save_outputs_ok[OF b wr acc, of aw ah "extend w3 d"] obtain w' where
    so: "save_outputs P a aw ah atlas (extend w3 d) = (Inr True, w')"
    and f: "files w' = (files (extend w3 d))(output_path a \<mapsto> bytes,
                header_path a \<mapsto> header_text a aw ah)"
    by blast
  have "set (stdout d) \<subseteq> set (stdout (extend w3 d))"
    by (simp add: stdout_extend)
  also have "\<dots> \<subseteq> set (stdout w')"
    using save_outputs_not_True_files[OF so] .
  finally have sub: "set (stdout (snd (render_atlas P a fnt aw ah empty_world))) \<subseteq> set (stdout w')"
    using e by simp
  have "generate_font_atlas P a w = Some (Inr True, w')"
    using g ra so by simp
  with e r b f f4 sub show ?thesis by auto
qed

section \<open>The sample runs\<close>

lemma default_atlas_size:
  assumes "first_char a = 32" "last_char a = 126" "include_box_drawing a"
    and "cell_width a = 16" "cell_height a = 16" "padding a = 1"
  shows "atlas_width a = Some 512" "atlas_height a = Some 256"
proof -
  have cnt: "char_count a = 223" using assms(1-3) by (rule default_count)
  show "atlas_width a = Some 512"
    by (simp add: atlas_width_def next_power_of_2_def glyphs_per_row_def padded_cell_width_def
        assms double_while.simps)
  show "atlas_height a = Some 256"
    unfolding atlas_height_def rows_def cnt
    by (simp add: next_power_of_2_def glyphs_per_row_def padded_cell_height_def
        assms double_while.simps)
qed

lemma two_char_list:
  "length (char_list two_char_args) = 2"
  "char_list two_char_args ! 0 = 65"
  "char_list two_char_args ! 1 = 66"
proof -
  show len: "length (char_list two_char_args) = 2"
    by (simp add: length_char_list two_char_args_def default_args_def)
  then have l: "0 < length (char_list two_char_args)" "1 < length (char_list two_char_args)"
    by simp_all
  show "char_list two_char_args ! 0 = 65"
    using nth_char_list[OF l(1)] by (simp add: two_char_args_def default_args_def)
  show "char_list two_char_args ! 1 = 66"
    using nth_char_list[OF l(2)] by (simp add: two_char_args_def default_args_def)
qed

lemma two_char_chr_ok: "\<forall>c\<in>set (char_list two_char_args). chr_ok c"
  by (auto simp: char_list_eq chr_ok_def two_char_args_def default_args_def
      simp del: upto_rec_numeral upto.simps)

lemma two_char_atlas_size:
  "atlas_width two_char_args = Some 512" "atlas_height two_char_args = Some 32"
proof -
  have cnt: "char_count two_char_args = 2" by (simp add: char_count_def two_char_list)
  show "atlas_width two_char_args = Some 512"
    by (simp add: atlas_width_def next_power_of_2_def glyphs_per_row_def padded_cell_width_def
        two_char_args_def default_args_def double_while.simps)
  show "atlas_height two_char_args = Some 32"
    unfolding atlas_height_def rows_def cnt
    by (simp add: next_power_of_2_def glyphs_per_row_def padded_cell_height_def
        two_char_args_def default_args_def double_while.simps)
qed

lemma sample_platform_ok:
  "\<forall>m. stdout_accepts sample_platform m"
  "\<forall>im. \<not> isl (encode sample_platform path im)"
  "writable sample_platform path"
  "\<not> isl (Image_new sample_platform (512, 256) 0)"
  "\<not> isl (Image_new sample_platform (512, 32) 0)"
  by (simp_all add: sample_platform_def Image_new_def)

lemma two_char_success:
  "\<exists>w' atlas bytes.
     generate_font_atlas sample_platform two_char_args w = Some (Inr True, w')
     \<and> fst (render_atlas sample_platform two_char_args sample_font 512 32 empty_world) = Inr atlas
     \<and> encode sample_platform (output_path two_char_args) atlas = Inr bytes
     \<and> files w' = (files w)(output_path two_char_args \<mapsto> bytes,
           header_path two_char_args \<mapsto> header_text two_char_args 512 32)
     \<and> set (stdout (snd (render_atlas sample_platform two_char_args sample_font 512 32 empty_world)))
         \<subseteq> set (stdout w')"
proof -
  have l: "truetype sample_platform (font_path two_char_args) (actual_font_size two_char_args)
             = Inr sample_font"
    by (simp add: sample_platform_def two_char_args_def default_args_def actual_font_size_def)
  show ?thesis
    by (rule generate_success[OF l two_char_chr_ok two_char_atlas_size sample_platform_ok(5)
          sample_platform_ok(1) sample_platform_ok(2) sample_platform_ok(3) sample_platform_ok(3)])
qed

section \<open>\<^verbatim>\<open>main\<close>: lemmas\<close>

lemma main_args_fixed:
  assumes "main_args P argv = Inr a"
  shows "first_char a = 32 \<and> last_char a = 126 \<and> include_box_drawing a"
  using assms
  by (auto simp: main_args_def Let_def split: sum.splits)

lemma main_args_chr_ok:
  assumes "main_args P argv = Inr a"
  shows "\<forall>c\<in>set (char_list a). chr_ok c"
  using main_args_fixed[OF assms]
  by (auto simp: char_list_eq chr_ok_def simp del: upto_rec_numeral upto.simps)

lemma main_args_Inl:
  assumes "main_args P argv = Inl e"
  shows "exit_status P argv w = Some (1, w)"
  using assms by (simp add: exit_status_def main_def)

lemma exit_status_missing:
  assumes "main_args P argv = Inr a" and "argv = prog # rest"
    and "\<not> path_exists P (font_path a)"
  shows "\<exists>w'. exit_status P argv w = Some (1, w') \<and> files w' = files w
           \<and> (stdout_accepts P (FontNotFound (font_path a)) \<and> stdout_accepts P (Usage prog) \<longrightarrow>
                w' = w\<lparr>stdout := stdout w @ [FontNotFound (font_path a), Usage prog]\<rparr>)"
  using assms by (auto simp: exit_status_def main_def print_def)

lemma exit_status_generate:
  assumes "main_args P argv = Inr a" and "path_exists P (font_path a)"
  shows "exit_status P argv w =
           map_option (\<lambda>(r, w'). (case r of Inl e \<Rightarrow> 1 | Inr ok \<Rightarrow> if ok then 0 else 1, w'))
             (generate_font_atlas P a w)"
  using assms
  by (auto simp: exit_status_def main_def split: option.splits sum.splits prod.splits)

section \<open>Claims about the command line\<close>

text \<open>
  C10. Whatever the command line is, when \<^verbatim>\<open>main\<close> gets as far as calling
  \<^verbatim>\<open>generate_font_atlas\<close>, the call has \<open>first_char = 32\<close>, \<open>last_char = 126\<close> and
  \<open>include_box_drawing = True\<close>: the code points are always 32 to 126 followed by
  0x2500 to 0x257F, 223 in all, and no positional argument changes them.
\<close>

theorem main_codepoints:
  assumes "main_args P argv = Inr a"
  shows "first_char a = 32 \<and> last_char a = 126 \<and> include_box_drawing a
         \<and> char_list a = [32..126] @ [0x2500..0x257F] \<and> char_count a = 223
         \<and> (path_exists P (font_path a) \<longrightarrow>
               exit_status P argv w =
                 map_option (\<lambda>(r, w'). (case r of Inl e \<Rightarrow> 1 | Inr ok \<Rightarrow> if ok then 0 else 1, w'))
                   (generate_font_atlas P a w))"
proof -
  note f = main_args_fixed[OF assms]
  have "char_list a = [32..126] @ [0x2500..0x257F]"
    using f by (simp add: char_list_eq del: upto_rec_numeral upto.simps)
  moreover have "char_count a = 223"
    using f by (simp add: default_count)
  ultimately show ?thesis
    using f exit_status_generate[OF assms, of w] by blast
qed

text \<open>A command line that gives all six positional arguments.\<close>

theorem main_codepoints_witness:
  "main_args sample_platform [''generate_font_atlas.py'', ''font.ttf'', ''out.png'', ''16'', ''16'', ''16'', ''0'']
     = Inr (default_args\<lparr>output_path := ''out.png'', font_size := Some 16, padding := 0\<rparr>)
   \<and> char_list (default_args\<lparr>output_path := ''out.png'', font_size := Some 16, padding := 0\<rparr>)
       = [32..126] @ [0x2500..0x257F]
   \<and> char_count (default_args\<lparr>output_path := ''out.png'', font_size := Some 16, padding := 0\<rparr>) = 223
   \<and> path_exists sample_platform ''font.ttf''
   \<and> exit_status sample_platform
         [''generate_font_atlas.py'', ''font.ttf'', ''out.png'', ''16'', ''16'', ''16'', ''0''] empty_world
       = map_option (\<lambda>(r, w'). (case r of Inl e \<Rightarrow> 1 | Inr ok \<Rightarrow> if ok then 0 else 1, w'))
           (generate_font_atlas sample_platform
              (default_args\<lparr>output_path := ''out.png'', font_size := Some 16, padding := 0\<rparr>) empty_world)"
proof -
  let ?argv = "[''generate_font_atlas.py'', ''font.ttf'', ''out.png'', ''16'', ''16'', ''16'', ''0'']"
  let ?a = "default_args\<lparr>output_path := ''out.png'', font_size := Some 16, padding := 0\<rparr>"
  have m: "main_args sample_platform ?argv = Inr ?a"
    by (simp add: main_args_def argv_int_def sample_platform_def default_args_def Let_def)
  have p: "path_exists sample_platform ''font.ttf''" "font_path ?a = ''font.ttf''"
    by (simp_all add: sample_platform_def default_args_def)
  from main_codepoints[OF m, of empty_world] m p show ?thesis by simp
qed

section \<open>Claims about the exit status\<close>

lemma exit_status_code:
  assumes "main_args P argv = Inr a" and "path_exists P (font_path a)"
    and "exit_status P argv w = Some (c, w')"
  shows "(c = 0 \<longleftrightarrow> generate_font_atlas P a w = Some (Inr True, w')) \<and> (c = 0 \<or> c = 1)"
proof -
  from generate_returns[of P a w] obtain r v where g: "generate_font_atlas P a w = Some (r, v)"
    by blast
  with exit_status_generate[OF assms(1,2), of w] assms(3)
  have "c = (case r of Inl e \<Rightarrow> 1 | Inr ok \<Rightarrow> if ok then 0 else 1)" "w' = v"
    by simp_all
  with g show ?thesis by (cases r) (auto split: if_splits)
qed

text \<open>
  C6 as stated: the process ends with status 1 and a usage message whenever the font
  file does not exist. Two command lines with a missing font where the status is 1
  and no file is written, but nothing is printed. In the first the third argument
  is not an integer: \<^verbatim>\<open>int(sys.argv[3])\<close> raises before the check of the font path. In
  the second the standard output encodes ASCII only and the font path has another
  character: the \<^verbatim>\<open>print\<close> of the error raises before the usage message is printed.
\<close>

theorem usage_not_printed:
  "\<not> path_exists sample_platform ''missing.ttf''
   \<and> exit_status sample_platform
         [''generate_font_atlas.py'', ''missing.ttf'', ''out.png'', ''abc''] empty_world
       = Some (1, \<lparr>files = Map.empty, stdout = []\<rparr>)
   \<and> \<not> path_exists ascii_platform (''caf'' @ [CHR 0xE9] @ ''.ttf'')
   \<and> exit_status ascii_platform
         [''generate_font_atlas.py'', ''caf'' @ [CHR 0xE9] @ ''.ttf''] empty_world
       = Some (1, \<lparr>files = Map.empty, stdout = []\<rparr>)"
  by (simp add: exit_status_def main_def main_args_def argv_int_def sample_platform_def
      ascii_platform_def ascii_stdout_def ascii_def print_def path_join_def
      empty_world_def Let_def)

text \<open>
  C6, amended. A command line with an argument that is not an integer ends with
  status 1 and changes nothing. When all numeric arguments are integers: if the font
  file does not exist, the status is 1 and no file is created or changed, and the
  error and the usage message are printed when the standard output can encode them;
  if the font exists but does not load, the status is 1 and no file is created or
  changed; otherwise the status is 0 or 1, and it is 0 exactly when
  \<^verbatim>\<open>generate_font_atlas\<close> returns \<^verbatim>\<open>True\<close>, which it does when the font loads, the
  atlas image can be created, every message can be printed and both outputs can be
  written.
\<close>

theorem exit_codes:
  "(main_args P argv = Inl x \<longrightarrow> exit_status P argv w = Some (1, w))
   \<and> (main_args P argv = Inr a \<and> argv = prog # rest \<longrightarrow>
         (\<not> path_exists P (font_path a) \<longrightarrow>
            (\<exists>w'. exit_status P argv w = Some (1, w') \<and> files w' = files w
               \<and> (stdout_accepts P (FontNotFound (font_path a)) \<and> stdout_accepts P (Usage prog) \<longrightarrow>
                    w' = w\<lparr>stdout := stdout w @ [FontNotFound (font_path a), Usage prog]\<rparr>)))
       \<and> (path_exists P (font_path a) \<longrightarrow>
            (\<forall>e. truetype P (font_path a) (actual_font_size a) = Inl e \<longrightarrow>
                 (\<exists>w'. exit_status P argv w = Some (1, w') \<and> files w' = files w))
          \<and> (\<forall>c w'. exit_status P argv w = Some (c, w') \<longrightarrow>
                 (c = 0 \<longleftrightarrow> generate_font_atlas P a w = Some (Inr True, w')) \<and> (c = 0 \<or> c = 1))
          \<and> (\<forall>fnt aw ah. truetype P (font_path a) (actual_font_size a) = Inr fnt
                 \<and> atlas_width a = Some aw \<and> atlas_height a = Some ah
                 \<and> \<not> isl (Image_new P (aw, ah) 0)
                 \<and> (\<forall>m. stdout_accepts P m)
                 \<and> (\<forall>im. \<not> isl (encode P (output_path a) im))
                 \<and> writable P (output_path a) \<and> writable P (header_path a) \<longrightarrow>
                 (\<exists>w'. exit_status P argv w = Some (0, w')
                    \<and> files w' (output_path a) \<noteq> None \<and> files w' (header_path a) \<noteq> None))))"
proof (intro conjI impI; (elim conjE)?)
  assume "main_args P argv = Inl x"
  then show "exit_status P argv w = Some (1, w)" by (rule main_args_Inl)
next
  assume assms: "main_args P argv = Inr a" "argv = prog # rest"
  assume "\<not> path_exists P (font_path a)"
  from exit_status_missing[OF assms this]
  show "\<exists>w'. exit_status P argv w = Some (1, w') \<and> files w' = files w
               \<and> (stdout_accepts P (FontNotFound (font_path a)) \<and> stdout_accepts P (Usage prog) \<longrightarrow>
                    w' = w\<lparr>stdout := stdout w @ [FontNotFound (font_path a), Usage prog]\<rparr>)" .
next
  assume assms: "main_args P argv = Inr a" "argv = prog # rest"
  assume ex: "path_exists P (font_path a)"
  show "\<forall>e. truetype P (font_path a) (actual_font_size a) = Inl e \<longrightarrow>
                 (\<exists>w'. exit_status P argv w = Some (1, w') \<and> files w' = files w)"
  proof (intro allI impI)
    fix e assume "truetype P (font_path a) (actual_font_size a) = Inl e"
    from generate_load_failure[OF this, of w] obtain r w' where
      g: "generate_font_atlas P a w = Some (r, w')" "r \<noteq> Inr True" "files w' = files w"
      by blast
    then have "exit_status P argv w = Some (1, w')"
      using exit_status_generate[OF assms(1) ex, of w] by (cases r) auto
    with g(3) show "\<exists>w'. exit_status P argv w = Some (1, w') \<and> files w' = files w" by blast
  qed
next
  assume assms: "main_args P argv = Inr a" "argv = prog # rest"
  assume ex: "path_exists P (font_path a)"
  show "\<forall>c w'. exit_status P argv w = Some (c, w') \<longrightarrow>
                 (c = 0 \<longleftrightarrow> generate_font_atlas P a w = Some (Inr True, w')) \<and> (c = 0 \<or> c = 1)"
    using exit_status_code[OF assms(1) ex] by blast
next
  assume assms: "main_args P argv = Inr a" "argv = prog # rest"
  assume ex: "path_exists P (font_path a)"
  show "\<forall>fnt aw ah. truetype P (font_path a) (actual_font_size a) = Inr fnt
                 \<and> atlas_width a = Some aw \<and> atlas_height a = Some ah
                 \<and> \<not> isl (Image_new P (aw, ah) 0)
                 \<and> (\<forall>m. stdout_accepts P m)
                 \<and> (\<forall>im. \<not> isl (encode P (output_path a) im))
                 \<and> writable P (output_path a) \<and> writable P (header_path a) \<longrightarrow>
                 (\<exists>w'. exit_status P argv w = Some (0, w')
                    \<and> files w' (output_path a) \<noteq> None \<and> files w' (header_path a) \<noteq> None)"
  proof (intro allI impI; elim conjE)
    fix fnt aw ah
    assume l: "truetype P (font_path a) (actual_font_size a) = Inr fnt"
      and sz: "atlas_width a = Some aw" "atlas_height a = Some ah"
      and img: "\<not> isl (Image_new P (aw, ah) 0)"
      and acc: "\<forall>m. stdout_accepts P m"
      and e: "\<forall>im. \<not> isl (encode P (output_path a) im)"
      and wr: "writable P (output_path a)" "writable P (header_path a)"
    from generate_success[OF l main_args_chr_ok[OF assms(1)] sz img acc e wr, of w]
    obtain w' bytes where
      g: "generate_font_atlas P a w = Some (Inr True, w')"
      and f: "files w' = (files w)(output_path a \<mapsto> bytes, header_path a \<mapsto> header_text a aw ah)"
      by blast
    from f have "files w' (output_path a) \<noteq> None" "files w' (header_path a) \<noteq> None"
      by auto
    moreover have "exit_status P argv w = Some (0, w')"
      using exit_status_generate[OF assms(1) ex, of w] g by simp
    ultimately show "\<exists>w'. exit_status P argv w = Some (0, w')
                    \<and> files w' (output_path a) \<noteq> None \<and> files w' (header_path a) \<noteq> None"
      by blast
  qed
qed

text \<open>
  Three command lines on the sample platform: a missing font, a font size of 0 that
  the library refuses, and a run that succeeds.
\<close>

theorem exit_codes_witness:
  "exit_status sample_platform [''generate_font_atlas.py'', ''missing.ttf''] empty_world
     = Some (1, empty_world\<lparr>stdout := [FontNotFound ''missing.ttf'', Usage ''generate_font_atlas.py'']\<rparr>)
   \<and> (\<exists>w'. exit_status sample_platform
               [''generate_font_atlas.py'', ''font.ttf'', ''out.png'', ''16'', ''16'', ''0''] empty_world
             = Some (1, w') \<and> files w' = Map.empty)
   \<and> (\<exists>w'. exit_status sample_platform [''generate_font_atlas.py'', ''font.ttf'', ''out.png''] empty_world
             = Some (0, w')
           \<and> files w' ''out.png'' \<noteq> None \<and> files w' ''out_metadata.h'' \<noteq> None)"
proof -
  let ?p = "''generate_font_atlas.py''"
  let ?P = sample_platform
  let ?a1 = "default_args\<lparr>font_path := ''missing.ttf'', output_path := ''/tool/font_atlas.png''\<rparr>"
  let ?a2 = "default_args\<lparr>output_path := ''out.png'', font_size := Some 0\<rparr>"
  let ?a3 = "default_args\<lparr>output_path := ''out.png''\<rparr>"
  have m1: "main_args ?P [?p, ''missing.ttf''] = Inr ?a1"
    by (simp add: main_args_def argv_int_def sample_platform_def default_args_def Let_def
        path_join_def)
  have m2: "main_args ?P [?p, ''font.ttf'', ''out.png'', ''16'', ''16'', ''0''] = Inr ?a2"
    by (simp add: main_args_def argv_int_def sample_platform_def default_args_def Let_def)
  have m3: "main_args ?P [?p, ''font.ttf'', ''out.png''] = Inr ?a3"
    by (simp add: main_args_def argv_int_def sample_platform_def default_args_def Let_def)
  have e1: "\<not> path_exists ?P (font_path ?a1)" "font_path ?a1 = ''missing.ttf''"
    "stdout_accepts ?P (FontNotFound (font_path ?a1))" "stdout_accepts ?P (Usage ?p)"
    by (simp_all add: sample_platform_def default_args_def)
  have e2: "path_exists ?P (font_path ?a2)"
    "truetype ?P (font_path ?a2) (actual_font_size ?a2) = Inl (LibraryError ''cannot open resource'')"
    by (simp_all add: sample_platform_def default_args_def actual_font_size_def)
  have s3: "atlas_width ?a3 = Some 512" "atlas_height ?a3 = Some 256"
    by (rule default_atlas_size; simp add: default_args_def)+
  have e3: "path_exists ?P (font_path ?a3)"
    "truetype ?P (font_path ?a3) (actual_font_size ?a3) = Inr sample_font"
    "\<not> isl (Image_new ?P (512, 256) 0)"
    "\<forall>m. stdout_accepts ?P m"
    "\<forall>im. \<not> isl (encode ?P (output_path ?a3) im)"
    "writable ?P (output_path ?a3)" "writable ?P (header_path ?a3)"
    by (simp_all add: sample_platform_def default_args_def actual_font_size_def Image_new_def)
  have h3: "output_path ?a3 = ''out.png''" "header_path ?a3 = ''out_metadata.h''"
    by (simp_all add: header_path_def default_args_def)
  have c1: "exit_status ?P [?p, ''missing.ttf''] empty_world
     = Some (1, empty_world\<lparr>stdout := [FontNotFound ''missing.ttf'', Usage ?p]\<rparr>)"
    using exit_codes[where P="?P" and argv="[?p, ''missing.ttf'']" and a="?a1" and w=empty_world
        and prog="?p" and rest="[''missing.ttf'']"] m1 e1
    by (auto simp: empty_world_def)
  have c2: "\<exists>w'. exit_status ?P [?p, ''font.ttf'', ''out.png'', ''16'', ''16'', ''0''] empty_world
             = Some (1, w') \<and> files w' = Map.empty"
    using exit_codes[where P="?P" and argv="[?p, ''font.ttf'', ''out.png'', ''16'', ''16'', ''0'']"
        and a="?a2" and w=empty_world and prog="?p"
        and rest="[''font.ttf'', ''out.png'', ''16'', ''16'', ''0'']"] m2 e2
    by (simp add: empty_world_def)
  have c3: "\<exists>w'. exit_status ?P [?p, ''font.ttf'', ''out.png''] empty_world = Some (0, w')
           \<and> files w' ''out.png'' \<noteq> None \<and> files w' ''out_metadata.h'' \<noteq> None"
    using exit_codes[where P="?P" and argv="[?p, ''font.ttf'', ''out.png'']" and a="?a3"
        and w=empty_world and prog="?p" and rest="[''font.ttf'', ''out.png'']"] m3 e3 s3
    unfolding h3 by blast
  from c1 c2 c3 show ?thesis by blast
qed

section \<open>Claims about degenerate cells\<close>





section \<open>Claims about reproducibility\<close>

text \<open>
  C8. Two runs of \<^verbatim>\<open>generate_font_atlas\<close> with the same arguments on the same
  platform (the same rasterizer and encoder), started in any two worlds, return the
  same value and add the same files and messages to their worlds; when they
  succeed, the atlas image and the metadata file hold the same bytes after both.
\<close>

theorem deterministic_outputs:
  assumes "generate_font_atlas P a w1 = Some (r1, w1')"
    and "generate_font_atlas P a w2 = Some (r2, w2')"
  shows "r1 = r2
         \<and> (\<exists>d. w1' = extend w1 d \<and> w2' = extend w2 d)
         \<and> (r1 = Inr True \<longrightarrow>
               files w1' (output_path a) = files w2' (output_path a)
               \<and> files w1' (header_path a) = files w2' (header_path a)
               \<and> files w1' (output_path a) \<noteq> None \<and> files w1' (header_path a) \<noteq> None)"
proof -
  from generate_returns[of P a empty_world] obtain r d where
    e: "generate_font_atlas P a empty_world = Some (r, d)" by blast
  from assms(1) e generate_from_empty[of P a w1] have 1: "r1 = r" "w1' = extend w1 d"
    by simp_all
  from assms(2) e generate_from_empty[of P a w2] have 2: "r2 = r" "w2' = extend w2 d"
    by simp_all
  have "files w1' (output_path a) = files w2' (output_path a)
        \<and> files w1' (header_path a) = files w2' (header_path a)
        \<and> files w1' (output_path a) \<noteq> None \<and> files w1' (header_path a) \<noteq> None"
    if "r1 = Inr True"
  proof -
    from that 1 e have "generate_font_atlas P a empty_world = Some (Inr True, d)" by simp
    from generate_True_files[OF this] obtain bytes aw ah where
      "files d = (files empty_world)(output_path a \<mapsto> bytes, header_path a \<mapsto> header_text a aw ah)"
      by blast
    then have "output_path a \<in> dom (files d)" "header_path a \<in> dom (files d)"
      by auto
    then show ?thesis
      unfolding 1 2 files_extend by (auto simp: map_add_def split: option.splits)
  qed
  with 1 2 show ?thesis by blast
qed

text \<open>
  Two runs on the sample platform, one in an empty world and one where an old atlas
  is in place and something has been printed.
\<close>

theorem deterministic_outputs_witness:
  "\<exists>w1' w2'.
     generate_font_atlas sample_platform two_char_args empty_world = Some (Inr True, w1')
     \<and> generate_font_atlas sample_platform two_char_args
           \<lparr>files = [''font_atlas.png'' \<mapsto> ''old''], stdout = [Done]\<rparr> = Some (Inr True, w2')
     \<and> files w1' ''font_atlas.png'' = files w2' ''font_atlas.png''
     \<and> files w1' ''font_atlas_metadata.h'' = files w2' ''font_atlas_metadata.h''
     \<and> files w2' ''font_atlas.png'' \<noteq> Some ''old''"
proof -
  let ?P = sample_platform
  let ?a = two_char_args
  let ?w2 = "\<lparr>files = [''font_atlas.png'' \<mapsto> ''old''], stdout = [Done]\<rparr>"
  have h: "output_path ?a = ''font_atlas.png''" "header_path ?a = ''font_atlas_metadata.h''"
    by (simp_all add: header_path_def two_char_args_def default_args_def)
  from two_char_success[of empty_world] obtain w1' where
    g1: "generate_font_atlas ?P ?a empty_world = Some (Inr True, w1')" by blast
  from two_char_success[of ?w2] obtain w2' atlas bytes where
    g2: "generate_font_atlas ?P ?a ?w2 = Some (Inr True, w2')"
    and b: "encode ?P (output_path ?a) atlas = Inr bytes"
    and f: "files w2' = (files ?w2)(output_path ?a \<mapsto> bytes,
           header_path ?a \<mapsto> header_text ?a 512 32)"
    by blast
  from b have "bytes \<noteq> ''old''" by (auto simp: sample_platform_def)
  with f have ne: "files w2' ''font_atlas.png'' \<noteq> Some ''old''"
    unfolding h by simp
  from deterministic_outputs[OF g1 g2] ne g1 g2 show ?thesis
    unfolding h by blast
qed

section \<open>Claims about the metadata path\<close>

text \<open>
  C9 says that the metadata is written to a path derived from the output path by
  replacing \<^verbatim>\<open>.png\<close> with \<^verbatim>\<open>_metadata.h\<close>, and that this path is never the image path.
  The script derives the path with \<^verbatim>\<open>output_path.replace(".png", "_metadata.h")\<close>,
  which leaves a path without \<^verbatim>\<open>.png\<close> as it is. On the command line below the
  output path is \<^verbatim>\<open>atlas.bmp\<close>: the metadata path is \<^verbatim>\<open>atlas.bmp\<close> too, the run ends
  with status 0, and the one file it leaves holds the metadata text, written over
  the image.
\<close>

theorem metadata_overwrites_atlas:
  "main_args sample_platform [''generate_font_atlas.py'', ''font.ttf'', ''atlas.bmp'']
     = Inr (default_args\<lparr>output_path := ''atlas.bmp''\<rparr>)
   \<and> header_path (default_args\<lparr>output_path := ''atlas.bmp''\<rparr>) = ''atlas.bmp''
   \<and> (\<exists>w'. exit_status sample_platform [''generate_font_atlas.py'', ''font.ttf'', ''atlas.bmp'']
                 empty_world = Some (0, w')
           \<and> dom (files w') = {''atlas.bmp''}
           \<and> files w' ''atlas.bmp''
               = Some (header_text (default_args\<lparr>output_path := ''atlas.bmp''\<rparr>) 512 256)
           \<and> files w' ''atlas.bmp'' \<noteq> Some ''L 512x256'')"
proof -
  let ?P = sample_platform
  let ?argv = "[''generate_font_atlas.py'', ''font.ttf'', ''atlas.bmp'']"
  let ?a = "default_args\<lparr>output_path := ''atlas.bmp''\<rparr>"
  have m: "main_args ?P ?argv = Inr ?a"
    by (simp add: main_args_def argv_int_def sample_platform_def default_args_def Let_def)
  have h: "header_path ?a = ''atlas.bmp''" "output_path ?a = ''atlas.bmp''"
    by (simp_all add: header_path_def default_args_def)
  have e: "path_exists ?P (font_path ?a)"
    "truetype ?P (font_path ?a) (actual_font_size ?a) = Inr sample_font"
    "\<forall>im. \<not> isl (encode ?P (output_path ?a) im)"
    "writable ?P (output_path ?a)" "writable ?P (header_path ?a)"
    by (simp_all add: sample_platform_def default_args_def actual_font_size_def)
  have cnt: "char_count ?a = 223"
    by (rule default_count) (simp_all add: default_args_def)
  have aw: "atlas_width ?a = Some 512"
    by (simp add: atlas_width_def next_power_of_2_def glyphs_per_row_def padded_cell_width_def
        default_args_def double_while.simps)
  have ah: "atlas_height ?a = Some 256"
    unfolding atlas_height_def rows_def cnt
    by (simp add: next_power_of_2_def glyphs_per_row_def padded_cell_height_def
        default_args_def double_while.simps)
  have img: "\<not> isl (Image_new ?P (512, 256) 0)" and acc: "\<forall>m. stdout_accepts ?P m"
    by (rule sample_platform_ok)+
  from generate_success[OF e(2) main_args_chr_ok[OF m] aw ah img acc e(3-5), of empty_world]
  obtain w' bytes where
    g: "generate_font_atlas ?P ?a empty_world = Some (Inr True, w')"
    and f: "files w' = (files empty_world)(output_path ?a \<mapsto> bytes,
              header_path ?a \<mapsto> header_text ?a 512 256)"
    by auto
  have x: "exit_status ?P ?argv empty_world = Some (0, w')"
    using exit_status_generate[OF m e(1), of empty_world] g by simp
  from f have d: "dom (files w') = {''atlas.bmp''}"
    and c: "files w' ''atlas.bmp'' = Some (header_text ?a 512 256)"
    unfolding h by (simp_all add: empty_world_def)
  have "header_text ?a 512 256 \<noteq> ''L 512x256''"
    by (simp add: header_text_def)
  with c have n: "files w' ''atlas.bmp'' \<noteq> Some ''L 512x256''" by simp
  from m h(1) x d c n show ?thesis by blast
qed

section \<open>A glyph that cannot be drawn\<close>


















section \<open>Claims about a glyph that fails\<close>




end
